theory Spec2Isabelle
  imports Complex_Main "HOL-Library.Sublist" "HOL-Library.Log_Nat"
begin

section \<open>JavaScript values\<close>

text \<open>
  The server stores whatever \<^verbatim>\<open>express.json()\<close> parsed, and the update route merges
  arbitrary request fields into a stored task, so a task is an open JavaScript object
  and not a fixed struct.  A JSON value is modelled as it arrives after parsing.  An
  object is a finite map from property names to values; a property that is missing and
  a property holding \<^verbatim>\<open>undefined\<close> read the same everywhere in this program (only named
  reads, spreads and \<^verbatim>\<open>JSON.stringify\<close> touch objects), so both are \<open>None\<close>.
  Property enumeration order is not observed by any operation below.  Numbers are
  the finite doubles, given by their rational value.
\<close>

datatype json =
    JNull
  | JBool bool
  | JNum rat
  | JStr string
  | JArr "json list"
  | JObj "string \<Rightarrow> json option"

type_synonym obj = "string \<Rightarrow> json option"

text \<open>JavaScript truthiness of a property read (\<open>None\<close> is \<^verbatim>\<open>undefined\<close>).\<close>

fun truthy :: "json option \<Rightarrow> bool" where
  "truthy None = False"
| "truthy (Some JNull) = False"
| "truthy (Some (JBool b)) = b"
| "truthy (Some (JNum n)) = (n \<noteq> 0)"
| "truthy (Some (JStr s)) = (s \<noteq> [])"
| "truthy (Some (JArr xs)) = True"
| "truthy (Some (JObj m)) = True"

text \<open>\<^verbatim>\<open>a || b\<close> on property reads.\<close>

definition js_or :: "json option \<Rightarrow> json option \<Rightarrow> json option" where
  "js_or a b = (if truthy a then a else b)"

text \<open>A destructuring default \<^verbatim>\<open>{ x = d }\<close> applies only when the property is undefined.\<close>

definition with_default :: "json option \<Rightarrow> json \<Rightarrow> json option" where
  "with_default a d = (case a of None \<Rightarrow> Some d | Some v \<Rightarrow> Some v)"

text \<open>Exceptions a handler can throw; Express answers an uncaught one with status 500.\<close>

datatype js_error = TypeError

text \<open>\<^verbatim>\<open>Array.prototype.findIndex\<close>; JavaScript's \<^verbatim>\<open>-1\<close> is \<open>None\<close>.\<close>

fun findIndex :: "('a \<Rightarrow> bool) \<Rightarrow> 'a list \<Rightarrow> nat option" where
  "findIndex P [] = None"
| "findIndex P (x # xs) =
     (if P x then Some 0 else map_option Suc (findIndex P xs))"

section \<open>The REST endpoint layer\<close>

text \<open>
  A response is a status code with a JSON body (\<^verbatim>\<open>res.status(n).json(v)\<close>) or without one
  (\<^verbatim>\<open>res.status(n).send()\<close>).  The module variable \<^verbatim>\<open>tasks\<close> is threaded through every
  handler: a handler takes the array and returns the array it leaves behind.  The clock
  (\<^verbatim>\<open>new Date().toISOString()\<close>) and the identifier generator (\<^verbatim>\<open>uuidv4()\<close>) are inputs.
\<close>

datatype response = Json nat json | Empty nat

fun status_of :: "response \<Rightarrow> nat" where
  "status_of (Json n b) = n"
| "status_of (Empty n) = n"

definition error_body :: "string \<Rightarrow> json" where
  "error_body msg = JObj [''error'' \<mapsto> JStr msg]"

text \<open>\<^verbatim>\<open>t.id === req.params.id\<close>: a route parameter is always a string.\<close>

definition has_id :: "string \<Rightarrow> obj \<Rightarrow> bool" where
  "has_id i t = (t ''id'' = Some (JStr i))"

text \<open>
  \<^verbatim>\<open>POST /api/tasks\<close>.  \<open>uuid\<close> is the result of \<^verbatim>\<open>uuidv4()\<close>; \<open>created\<close> and \<open>updated\<close>
  are the two clock readings of the object literal.
\<close>

definition post_task :: "string \<Rightarrow> string \<Rightarrow> string \<Rightarrow> obj \<Rightarrow> obj list \<Rightarrow> response \<times> obj list" where
  "post_task uuid created updated body tasks =
     (let title = body ''title'';
          description = body ''description'';
          priority = with_default (body ''priority'') (JStr ''medium'');
          dueDate = body ''dueDate'';
          tags = with_default (body ''tags'') (JArr []);
          assignee = body ''assignee''
      in if \<not> truthy title then (Json 400 (error_body ''Title is required''), tasks)
         else
           let newTask = Map.empty
                 (''id'' \<mapsto> JStr uuid,
                  ''title'' := title,
                  ''description'' := js_or description (Some (JStr '''')),
                  ''status'' \<mapsto> JStr ''todo'',
                  ''priority'' := priority,
                  ''dueDate'' := dueDate,
                  ''createdAt'' \<mapsto> JStr created,
                  ''updatedAt'' \<mapsto> JStr updated,
                  ''subtasks'' \<mapsto> JArr [],
                  ''tags'' := tags,
                  ''assignee'' := js_or assignee (Some (JStr '''')))
           in (Json 201 (JObj newTask), tasks @ [newTask]))"

text \<open>
  Query parameters.  The query parser gives a string for a key that occurs once and an
  array or nested object for a repeated or bracketed key; a key that does not occur is
  \<^verbatim>\<open>undefined\<close> (\<open>None\<close>).
\<close>

datatype qparam = QStr string | QMulti

fun q_truthy :: "qparam option \<Rightarrow> bool" where
  "q_truthy None = False"
| "q_truthy (Some (QStr s)) = (s \<noteq> [])"
| "q_truthy (Some QMulti) = True"

text \<open>\<^verbatim>\<open>task[f] === q\<close>: a freshly parsed array or object is identical to nothing stored.\<close>

fun field_equals :: "string \<Rightarrow> qparam option \<Rightarrow> obj \<Rightarrow> bool" where
  "field_equals f (Some (QStr s)) t = (t f = Some (JStr s))"
| "field_equals f (Some QMulti) t = False"
| "field_equals f None t = (t f = None)"

text \<open>
  \<^verbatim>\<open>String.prototype.toLowerCase\<close> is the JavaScript runtime's: it folds every cased
  letter by the Unicode tables and may change the length of a string.  The handler is
  modelled for any such function, the parameter \<open>lower\<close>.  A string is the list of its
  code units.
\<close>

text \<open>\<^verbatim>\<open>hay.includes(needle)\<close> on strings.\<close>

definition str_includes :: "string \<Rightarrow> string \<Rightarrow> bool" where
  "str_includes hay needle = sublist needle hay"

text \<open>\<^verbatim>\<open>v.toLowerCase()\<close> on a property read: only a string has the method.\<close>

fun lower_of :: "(string \<Rightarrow> string) \<Rightarrow> json option \<Rightarrow> js_error + string" where
  "lower_of lower (Some (JStr s)) = Inr (lower s)"
| "lower_of lower v = Inl TypeError"

fun q_lower :: "(string \<Rightarrow> string) \<Rightarrow> qparam option \<Rightarrow> js_error + string" where
  "q_lower lower (Some (QStr s)) = Inr (lower s)"
| "q_lower lower q = Inl TypeError"

text \<open>
  The callback of the text search, in evaluation order: the title is lower-cased, then
  the search term; \<^verbatim>\<open>||\<close> reads the description only when the title does not match.
\<close>

definition matches_search ::
  "(string \<Rightarrow> string) \<Rightarrow> qparam option \<Rightarrow> obj \<Rightarrow> js_error + bool" where
  "matches_search lower search task =
     (case lower_of lower (task ''title'') of
        Inl e \<Rightarrow> Inl e
      | Inr t \<Rightarrow>
          (case q_lower lower search of
             Inl e \<Rightarrow> Inl e
           | Inr s \<Rightarrow>
               if str_includes t s then Inr True
               else (case lower_of lower (task ''description'') of
                       Inl e \<Rightarrow> Inl e
                     | Inr d \<Rightarrow> Inr (str_includes d s))))"

text \<open>\<^verbatim>\<open>Array.prototype.filter\<close> with a callback that may throw.\<close>

fun filter_e :: "('a \<Rightarrow> js_error + bool) \<Rightarrow> 'a list \<Rightarrow> js_error + 'a list" where
  "filter_e P [] = Inr []"
| "filter_e P (x # xs) =
     (case P x of
        Inl e \<Rightarrow> Inl e
      | Inr b \<Rightarrow>
          (case filter_e P xs of
             Inl e \<Rightarrow> Inl e
           | Inr ys \<Rightarrow> Inr (if b then x # ys else ys)))"

text \<open>\<^verbatim>\<open>GET /api/tasks\<close>: the value of \<^verbatim>\<open>filteredTasks\<close> when the handler answers.\<close>

definition filteredTasks ::
  "(string \<Rightarrow> string) \<Rightarrow> qparam option \<Rightarrow> qparam option \<Rightarrow> qparam option \<Rightarrow> obj list
     \<Rightarrow> js_error + obj list" where
  "filteredTasks lower status priority search tasks =
     (let f0 = tasks;
          f1 = (if q_truthy status then filter (field_equals ''status'' status) f0 else f0);
          f2 = (if q_truthy priority then filter (field_equals ''priority'' priority) f1 else f1)
      in if q_truthy search then filter_e (matches_search lower search) f2 else Inr f2)"

definition get_tasks ::
  "(string \<Rightarrow> string) \<Rightarrow> qparam option \<Rightarrow> qparam option \<Rightarrow> qparam option \<Rightarrow> obj list
     \<Rightarrow> js_error + response" where
  "get_tasks lower status priority search tasks =
     (case filteredTasks lower status priority search tasks of
        Inl e \<Rightarrow> Inl e
      | Inr ts \<Rightarrow> Inr (Json 200 (JArr (map JObj ts))))"

text \<open>\<^verbatim>\<open>GET /api/tasks/:id\<close>.\<close>

definition get_task :: "string \<Rightarrow> obj list \<Rightarrow> response" where
  "get_task i tasks =
     (case find (has_id i) tasks of
        None \<Rightarrow> Json 404 (error_body ''Task not found'')
      | Some task \<Rightarrow> Json 200 (JObj task))"

text \<open>
  \<^verbatim>\<open>PUT /api/tasks/:id\<close>.  The object spread \<^verbatim>\<open>{...old, ...body, updatedAt: now}\<close> is the
  map override \<open>++\<close> followed by one update.
\<close>

definition put_task :: "string \<Rightarrow> string \<Rightarrow> obj \<Rightarrow> obj list \<Rightarrow> response \<times> obj list" where
  "put_task i now body tasks =
     (case findIndex (has_id i) tasks of
        None \<Rightarrow> (Json 404 (error_body ''Task not found''), tasks)
      | Some taskIndex \<Rightarrow>
          let updatedTask = ((tasks ! taskIndex) ++ body)(''updatedAt'' \<mapsto> JStr now)
          in (Json 200 (JObj updatedTask), tasks[taskIndex := updatedTask]))"

text \<open>\<^verbatim>\<open>DELETE /api/tasks/:id\<close>; \<^verbatim>\<open>splice(taskIndex, 1)\<close> removes one element.\<close>

definition splice1 :: "nat \<Rightarrow> 'a list \<Rightarrow> 'a list" where
  "splice1 i xs = take i xs @ drop (Suc i) xs"

definition delete_task :: "string \<Rightarrow> obj list \<Rightarrow> response \<times> obj list" where
  "delete_task i tasks =
     (case findIndex (has_id i) tasks of
        None \<Rightarrow> (Json 404 (error_body ''Task not found''), tasks)
      | Some taskIndex \<Rightarrow> (Empty 204, splice1 taskIndex tasks))"

text \<open>
  The subtask routes find the parent with \<^verbatim>\<open>tasks.find\<close> and mutate that object in
  place.  No two elements of \<^verbatim>\<open>tasks\<close> are the same object (each is built by an object
  literal or a spread), so the mutation is an update of the first matching position.

  \<^verbatim>\<open>POST /api/tasks/:id/subtasks\<close>.  \<^verbatim>\<open>task.subtasks.push\<close> throws unless the stored
  \<^verbatim>\<open>subtasks\<close> is an array, which happens before anything is written.
\<close>

definition post_subtask ::
  "string \<Rightarrow> string \<Rightarrow> string \<Rightarrow> obj \<Rightarrow> obj list \<Rightarrow> (js_error + response) \<times> obj list" where
  "post_subtask i uuid now body tasks =
     (case findIndex (has_id i) tasks of
        None \<Rightarrow> (Inr (Json 404 (error_body ''Task not found'')), tasks)
      | Some taskIndex \<Rightarrow>
          let task = tasks ! taskIndex;
              title = body ''title''
          in if \<not> truthy title
             then (Inr (Json 400 (error_body ''Subtask title is required'')), tasks)
             else
               let newSubtask = Map.empty
                     (''id'' \<mapsto> JStr uuid,
                      ''title'' := title,
                      ''completed'' \<mapsto> JBool False)
               in (case task ''subtasks'' of
                     Some (JArr subtasks) \<Rightarrow>
                       (Inr (Json 201 (JObj newSubtask)),
                        tasks[taskIndex := task
                          (''subtasks'' \<mapsto> JArr (subtasks @ [JObj newSubtask]),
                           ''updatedAt'' \<mapsto> JStr now)])
                   | _ \<Rightarrow> (Inl TypeError, tasks)))"

text \<open>
  \<^verbatim>\<open>task.subtasks.findIndex(st => st.id === subtaskId)\<close>: reading \<^verbatim>\<open>id\<close> from \<^verbatim>\<open>null\<close>
  throws, from any other non-object it is \<^verbatim>\<open>undefined\<close>.  The result carries the index
  and the properties of the subtask found.
\<close>

fun find_subtask :: "string \<Rightarrow> json list \<Rightarrow> js_error + (nat \<times> obj) option" where
  "find_subtask sid [] = Inr None"
| "find_subtask sid (JNull # sts) = Inl TypeError"
| "find_subtask sid (JObj m # sts) =
     (if m ''id'' = Some (JStr sid) then Inr (Some (0, m))
      else map_sum id (map_option (map_prod Suc id)) (find_subtask sid sts))"
| "find_subtask sid (st # sts) =
     map_sum id (map_option (map_prod Suc id)) (find_subtask sid sts)"

text \<open>\<^verbatim>\<open>PUT /api/tasks/:taskId/subtasks/:subtaskId\<close>.\<close>

definition put_subtask ::
  "string \<Rightarrow> string \<Rightarrow> string \<Rightarrow> obj \<Rightarrow> obj list \<Rightarrow> (js_error + response) \<times> obj list" where
  "put_subtask taskId subtaskId now body tasks =
     (case findIndex (has_id taskId) tasks of
        None \<Rightarrow> (Inr (Json 404 (error_body ''Task not found'')), tasks)
      | Some taskIndex \<Rightarrow>
          let task = tasks ! taskIndex
          in (case task ''subtasks'' of
                Some (JArr subtasks) \<Rightarrow>
                  (case find_subtask subtaskId subtasks of
                     Inl e \<Rightarrow> (Inl e, tasks)
                   | Inr None \<Rightarrow> (Inr (Json 404 (error_body ''Subtask not found'')), tasks)
                   | Inr (Some (subtaskIndex, old)) \<Rightarrow>
                       let merged = old ++ body
                       in (Inr (Json 200 (JObj merged)),
                           tasks[taskIndex := task
                             (''subtasks'' \<mapsto> JArr (subtasks[subtaskIndex := JObj merged]),
                              ''updatedAt'' \<mapsto> JStr now)]))
              | _ \<Rightarrow> (Inl TypeError, tasks)))"

text \<open>\<^verbatim>\<open>DELETE /api/tasks/:taskId/subtasks/:subtaskId\<close>.\<close>

definition delete_subtask ::
  "string \<Rightarrow> string \<Rightarrow> string \<Rightarrow> obj list \<Rightarrow> (js_error + response) \<times> obj list" where
  "delete_subtask taskId subtaskId now tasks =
     (case findIndex (has_id taskId) tasks of
        None \<Rightarrow> (Inr (Json 404 (error_body ''Task not found'')), tasks)
      | Some taskIndex \<Rightarrow>
          let task = tasks ! taskIndex
          in (case task ''subtasks'' of
                Some (JArr subtasks) \<Rightarrow>
                  (case find_subtask subtaskId subtasks of
                     Inl e \<Rightarrow> (Inl e, tasks)
                   | Inr None \<Rightarrow> (Inr (Json 404 (error_body ''Subtask not found'')), tasks)
                   | Inr (Some (subtaskIndex, old)) \<Rightarrow>
                       (Inr (Empty 204),
                        tasks[taskIndex := task
                          (''subtasks'' \<mapsto> JArr (splice1 subtaskIndex subtasks),
                           ''updatedAt'' \<mapsto> JStr now)]))
              | _ \<Rightarrow> (Inl TypeError, tasks)))"

text \<open>
  The array the server starts with; \<open>t1\<close> to \<open>t4\<close> are the four clock readings of
  the initialiser.
\<close>

definition initial_tasks :: "string \<Rightarrow> string \<Rightarrow> string \<Rightarrow> string \<Rightarrow> obj list" where
  "initial_tasks t1 t2 t3 t4 =
     [Map.empty
        (''id'' \<mapsto> JStr ''1'',
         ''title'' \<mapsto> JStr ''Learn React Hooks'',
         ''description'' \<mapsto> JStr ''Study useEffect, useState, and custom hooks'',
         ''status'' \<mapsto> JStr ''in-progress'',
         ''priority'' \<mapsto> JStr ''high'',
         ''dueDate'' \<mapsto> JStr ''2025-01-20'',
         ''createdAt'' \<mapsto> JStr t1,
         ''updatedAt'' \<mapsto> JStr t2,
         ''subtasks'' \<mapsto> JArr
            [JObj [''id'' \<mapsto> JStr ''sub1'', ''title'' \<mapsto> JStr ''Read useEffect documentation'',
                   ''completed'' \<mapsto> JBool True],
             JObj [''id'' \<mapsto> JStr ''sub2'', ''title'' \<mapsto> JStr ''Practice custom hooks'',
                   ''completed'' \<mapsto> JBool False]],
         ''tags'' \<mapsto> JArr [JStr ''react'', JStr ''learning''],
         ''assignee'' \<mapsto> JStr ''John Doe''),
      Map.empty
        (''id'' \<mapsto> JStr ''2'',
         ''title'' \<mapsto> JStr ''Build Task Manager'',
         ''description'' \<mapsto> JStr ''Create a comprehensive task management application'',
         ''status'' \<mapsto> JStr ''todo'',
         ''priority'' \<mapsto> JStr ''medium'',
         ''dueDate'' \<mapsto> JStr ''2025-01-25'',
         ''createdAt'' \<mapsto> JStr t3,
         ''updatedAt'' \<mapsto> JStr t4,
         ''subtasks'' \<mapsto> JArr
            [JObj [''id'' \<mapsto> JStr ''sub3'', ''title'' \<mapsto> JStr ''Setup backend API'',
                   ''completed'' \<mapsto> JBool True],
             JObj [''id'' \<mapsto> JStr ''sub4'', ''title'' \<mapsto> JStr ''Create React components'',
                   ''completed'' \<mapsto> JBool False],
             JObj [''id'' \<mapsto> JStr ''sub5'', ''title'' \<mapsto> JStr ''Add form validation'',
                   ''completed'' \<mapsto> JBool False]],
         ''tags'' \<mapsto> JArr [JStr ''project'', JStr ''development''],
         ''assignee'' \<mapsto> JStr ''Jane Smith'')]"

text \<open>
  The routes that touch \<^verbatim>\<open>tasks\<close>, as the router dispatches them.  A request carries
  what the handler reads from it and from its environment: route parameters, query
  parameters, the parsed body, the identifier \<^verbatim>\<open>uuidv4()\<close> returns, the clock readings
  and, for the text search, the runtime's \<^verbatim>\<open>toLowerCase\<close>.
\<close>

datatype request =
    GetTasks "string \<Rightarrow> string" "qparam option" "qparam option" "qparam option"
  | GetTask string
  | PostTask string string string obj
  | PutTask string string obj
  | DeleteTask string
  | PostSubtask string string string obj
  | PutSubtask string string string obj
  | DeleteSubtask string string string

fun handle :: "request \<Rightarrow> obj list \<Rightarrow> (js_error + response) \<times> obj list" where
  "handle (GetTasks lower status priority search) tasks =
     (get_tasks lower status priority search tasks, tasks)"
| "handle (GetTask i) tasks = (Inr (get_task i tasks), tasks)"
| "handle (PostTask uuid created updated body) tasks =
     map_prod Inr id (post_task uuid created updated body tasks)"
| "handle (PutTask i now body) tasks = map_prod Inr id (put_task i now body tasks)"
| "handle (DeleteTask i) tasks = map_prod Inr id (delete_task i tasks)"
| "handle (PostSubtask i uuid now body) tasks = post_subtask i uuid now body tasks"
| "handle (PutSubtask taskId subtaskId now body) tasks = put_subtask taskId subtaskId now body tasks"
| "handle (DeleteSubtask taskId subtaskId now) tasks = delete_subtask taskId subtaskId now tasks"

text \<open>The states of \<^verbatim>\<open>tasks\<close> that a sequence of requests can produce.\<close>

inductive reachable :: "obj list \<Rightarrow> bool" where
  boot: "reachable (initial_tasks t1 t2 t3 t4)"
| request: "reachable tasks \<Longrightarrow> reachable (snd (handle r tasks))"

text \<open>A handler succeeded when it answered with a 2xx status.\<close>

fun succeeded :: "js_error + response \<Rightarrow> bool" where
  "succeeded (Inl e) = False"
| "succeeded (Inr r) = (200 \<le> status_of r \<and> status_of r < 300)"

text \<open>
  The four mutations of C7, each with the id of the task it addresses and its clock
  reading.
\<close>

fun mutation_of :: "request \<Rightarrow> (string \<times> string) option" where
  "mutation_of (PutTask i now body) = Some (i, now)"
| "mutation_of (PostSubtask i uuid now body) = Some (i, now)"
| "mutation_of (PutSubtask taskId subtaskId now body) = Some (taskId, now)"
| "mutation_of (DeleteSubtask taskId subtaskId now) = Some (taskId, now)"
| "mutation_of r = None"

subsection \<open>Notions the properties are stated with\<close>

text \<open>The tasks that \<^verbatim>\<open>GET /api/tasks?status=s\<close> lists.\<close>

definition status_subset :: "(string \<Rightarrow> string) \<Rightarrow> string \<Rightarrow> obj list \<Rightarrow> obj list" where
  "status_subset lower s tasks =
     (case filteredTasks lower (Some (QStr s)) None None tasks of Inl e \<Rightarrow> [] | Inr ts \<Rightarrow> ts)"

text \<open>
  The state after \<^verbatim>\<open>PUT /api/tasks/1\<close> with body \<^verbatim>\<open>{"status": "archived"}\<close> on the
  initial array.
\<close>

definition archived_state :: "obj list" where
  "archived_state =
     snd (handle (PutTask ''1'' ''T9'' [''status'' \<mapsto> JStr ''archived''])
            (initial_tasks ''T0'' ''T0'' ''T0'' ''T0''))"

text \<open>
  The state after \<^verbatim>\<open>PUT /api/tasks/1\<close> with body \<^verbatim>\<open>{"title": 5}\<close> on the initial array.
\<close>

definition numeric_title_state :: "obj list" where
  "numeric_title_state =
     snd (handle (PutTask ''1'' ''T9'' [''title'' \<mapsto> JNum 5])
            (initial_tasks ''T0'' ''T0'' ''T0'' ''T0''))"

text \<open>
  The filter semantics in the words of the specification.  \<open>term\<close> is a
  case-insensitive substring of \<open>text\<close> when it is a substring after both are
  lower-cased by the runtime:
\<close>

definition ci_substring :: "(string \<Rightarrow> string) \<Rightarrow> string \<Rightarrow> string \<Rightarrow> bool" where
  "ci_substring lower term text = sublist (lower term) (lower text)"

text \<open>
  An equality filter on field \<open>f\<close>: absent or empty, it admits every task; a non-empty
  string admits the tasks whose field is that string; an array or object admits none.
\<close>

fun passes_field :: "string \<Rightarrow> qparam option \<Rightarrow> obj \<Rightarrow> bool" where
  "passes_field f None t = True"
| "passes_field f (Some (QStr s)) t = (s = [] \<or> t f = Some (JStr s))"
| "passes_field f (Some QMulti) t = False"

definition field_contains :: "(string \<Rightarrow> string) \<Rightarrow> string \<Rightarrow> string \<Rightarrow> obj \<Rightarrow> bool" where
  "field_contains lower f term t =
     (case t f of Some (JStr text) \<Rightarrow> ci_substring lower term text | _ \<Rightarrow> False)"

text \<open>The text search: title OR description; absent or empty, it admits every task.\<close>

fun passes_search :: "(string \<Rightarrow> string) \<Rightarrow> qparam option \<Rightarrow> obj \<Rightarrow> bool" where
  "passes_search lower (Some (QStr term)) t =
     (term = [] \<or> field_contains lower ''title'' term t \<or> field_contains lower ''description'' term t)"
| "passes_search lower q t = True"

text \<open>
  The text search can read a task when the search parameter is a single string, the
  title is a string and, unless the title already contains the term, the description
  is a string.  On any other task the callback throws.
\<close>

fun is_str :: "json option \<Rightarrow> bool" where
  "is_str (Some (JStr s)) = True"
| "is_str v = False"

fun search_reads :: "(string \<Rightarrow> string) \<Rightarrow> qparam option \<Rightarrow> obj \<Rightarrow> bool" where
  "search_reads lower (Some (QStr term)) t =
     (is_str (t ''title'')
      \<and> (field_contains lower ''title'' term t \<or> is_str (t ''description'')))"
| "search_reads lower q t = False"

text \<open>
  \<^verbatim>\<open>toLowerCase\<close> on the ASCII letters, for the examples: the runtime's function agrees
  with it on text of ASCII characters, which is all the examples contain.
\<close>

definition lower_char :: "char \<Rightarrow> char" where
  "lower_char c =
     (let n = (of_char c :: nat) in if 65 \<le> n \<and> n \<le> 90 then char_of (n + 32) else c)"

definition ascii_lower :: "string \<Rightarrow> string" where
  "ascii_lower s = map lower_char s"

section \<open>The client state layer\<close>

text \<open>
  The client holds the tasks the server sent, so a task is again a parsed JSON object.
  Form data (\<^verbatim>\<open>taskData\<close>) is the object \<^verbatim>\<open>TaskForm\<close> builds, whose properties are all
  defined, so a spread of it is a map override as above.
\<close>

text \<open>
  \<^verbatim>\<open>a === b\<close> on property reads.  Primitives are compared by value.  Two arrays or
  objects are identical only when they are the same object; values carry no identity
  here, and identifiers are strings in the data model, so the case is answered
  \<open>False\<close> and the properties below are stated for string identifiers.
\<close>

fun strict_eq :: "json option \<Rightarrow> json option \<Rightarrow> bool" where
  "strict_eq None None = True"
| "strict_eq (Some JNull) (Some JNull) = True"
| "strict_eq (Some (JBool a)) (Some (JBool b)) = (a = b)"
| "strict_eq (Some (JNum a)) (Some (JNum b)) = (a = b)"
| "strict_eq (Some (JStr a)) (Some (JStr b)) = (a = b)"
| "strict_eq a b = False"

subsection \<open>TaskContext: the optimistic update\<close>

text \<open>
  The state variables of \<^verbatim>\<open>TaskProvider\<close> that \<^verbatim>\<open>handleUpdateTask\<close> reads or writes.
  \<open>st_error\<close> is the \<^verbatim>\<open>message\<close> of the error object, \<open>None\<close> for \<^verbatim>\<open>null\<close>.
\<close>

record client_state =
  st_tasks :: "obj list"
  st_isSubmitting :: bool
  st_showEditModal :: bool
  st_editingTask :: "obj option"
  st_error :: "string option"

text \<open>
  What the handler does, in program order: calls of the state setters and the one
  network request (\<^verbatim>\<open>updateTask(id, taskData)\<close>, a \<^verbatim>\<open>PUT\<close>).
\<close>

datatype event =
    SetIsSubmitting bool
  | SetTasks "obj list"
  | UpdateTaskRequest "json option" obj
  | SetShowEditModal bool
  | SetEditingTask "obj option"
  | SetError string

text \<open>
  How the awaited request settles: it resolves (the response is not used), or it
  rejects with an error whose \<^verbatim>\<open>message\<close> is given.
\<close>

datatype settled = Resolved | Rejected string

fun apply_event :: "event \<Rightarrow> client_state \<Rightarrow> client_state" where
  "apply_event (SetIsSubmitting b) c = c\<lparr>st_isSubmitting := b\<rparr>"
| "apply_event (SetTasks ts) c = c\<lparr>st_tasks := ts\<rparr>"
| "apply_event (UpdateTaskRequest i d) c = c"
| "apply_event (SetShowEditModal b) c = c\<lparr>st_showEditModal := b\<rparr>"
| "apply_event (SetEditingTask e) c = c\<lparr>st_editingTask := e\<rparr>"
| "apply_event (SetError m) c = c\<lparr>st_error := Some m\<rparr>"

definition run_events :: "event list \<Rightarrow> client_state \<Rightarrow> client_state" where
  "run_events es c = fold apply_event es c"

text \<open>
  \<^verbatim>\<open>handleUpdateTask(taskData)\<close>, closed over the \<^verbatim>\<open>tasks\<close> and \<^verbatim>\<open>editingTask\<close> of the
  state \<open>c\<close>.  \<^verbatim>\<open>error.message || 'Failed to update task'\<close> replaces an empty message.
\<close>

definition handleUpdateTask :: "client_state \<Rightarrow> obj \<Rightarrow> settled \<Rightarrow> event list" where
  "handleUpdateTask c taskData settled =
     (case st_editingTask c of
        None \<Rightarrow> []
      | Some editingTask \<Rightarrow>
          let previousTasks = st_tasks c;
              updatedTasks =
                map (\<lambda>task. if strict_eq (task ''id'') (editingTask ''id'')
                            then task ++ taskData else task) (st_tasks c)
          in [SetIsSubmitting True, SetTasks updatedTasks,
              UpdateTaskRequest (editingTask ''id'') taskData]
             @ (case settled of
                  Resolved \<Rightarrow> [SetShowEditModal False, SetEditingTask None]
                | Rejected message \<Rightarrow>
                    [SetTasks previousTasks,
                     SetError (if message \<noteq> [] then message else ''Failed to update task'')])
             @ [SetIsSubmitting False])"

text \<open>The events of the handler up to and including the request.\<close>

fun until_request :: "event list \<Rightarrow> event list" where
  "until_request [] = []"
| "until_request (UpdateTaskRequest i d # es) = [UpdateTaskRequest i d]"
| "until_request (e # es) = e # until_request es"

subsection \<open>Derived views\<close>

text \<open>
  The derivations call built-in functions whose results are the JavaScript runtime's
  and not this program's.  They are parameters of the model:
  \<^item> \<open>toLowerCase\<close> is \<^verbatim>\<open>String.prototype.toLowerCase\<close>;
  \<^item> \<open>date_value\<close> is the time value of \<^verbatim>\<open>new Date(v)\<close> in milliseconds, \<open>None\<close> for an
    invalid date; the constructor throws for an object that cannot be made a primitive;
  \<^item> \<open>number_text\<close> is the decimal text of a number (\<^verbatim>\<open>Number.prototype.toString\<close>);
  \<^item> \<open>native_text\<close> is the source text the runtime prints for the built-in function
    that \<^verbatim>\<open>Object.prototype\<close> holds under a name (it begins with \<^verbatim>\<open>function\<close>);
  \<^item> \<open>array_sort\<close> is \<^verbatim>\<open>Array.prototype.sort\<close> on an array of tasks with a comparator
    that may throw; the order it gives for a comparator that is not a consistent
    ordering is the engine's own.
  The clock is a parameter too.  The overdue filters construct \<^verbatim>\<open>new Date()\<close> anew in each
  call of their callback that gets as far: \<open>clock i\<close> is the reading taken in the call
  on the task at index \<open>i\<close>.
\<close>

record runtime =
  toLowerCase :: "string \<Rightarrow> string"
  date_value :: "json option \<Rightarrow> js_error + int option"
  number_text :: "rat \<Rightarrow> string"
  native_text :: "string \<Rightarrow> string"
  array_sort :: "(obj \<Rightarrow> obj \<Rightarrow> js_error + int) \<Rightarrow> obj list \<Rightarrow> js_error + obj list"

text \<open>
  The callback of the overdue filters, with the clock reading \<open>now\<close> of the call:
  \<^verbatim>\<open>if (!t.dueDate || t.status === 'completed') return false;
  return new Date(t.dueDate) < new Date();\<close>
\<close>

definition is_overdue :: "runtime \<Rightarrow> int \<Rightarrow> obj \<Rightarrow> js_error + bool" where
  "is_overdue rt now t =
     (if \<not> truthy (t ''dueDate'') \<or> t ''status'' = Some (JStr ''completed'') then Inr False
      else (case date_value rt (t ''dueDate'') of
              Inl e \<Rightarrow> Inl e
            | Inr None \<Rightarrow> Inr False
            | Inr (Some due) \<Rightarrow> Inr (due < now)))"

text \<open>
  \<^verbatim>\<open>tasks.filter(t => ...).length\<close> for the overdue callback: the indices at which it
  answers true, each call with its own clock reading.
\<close>

definition overdue_indices :: "runtime \<Rightarrow> (nat \<Rightarrow> int) \<Rightarrow> obj list \<Rightarrow> js_error + nat list" where
  "overdue_indices rt clock tasks =
     filter_e (\<lambda>i. is_overdue rt (clock i) (tasks ! i)) [0..<length tasks]"

text \<open>\<^verbatim>\<open>stats\<close> of \<^verbatim>\<open>TaskBoard\<close>; \<open>None\<close> is a missing \<^verbatim>\<open>tasks\<close> prop.\<close>

record stats =
  total :: nat
  completed :: nat
  inProgress :: nat
  overdue :: nat

definition board_stats :: "runtime \<Rightarrow> (nat \<Rightarrow> int) \<Rightarrow> obj list option \<Rightarrow> js_error + stats" where
  "board_stats rt clock tasks =
     (case tasks of
        None \<Rightarrow> Inr \<lparr>total = 0, completed = 0, inProgress = 0, overdue = 0\<rparr>
      | Some ts \<Rightarrow>
          (case overdue_indices rt clock ts of
             Inl e \<Rightarrow> Inl e
           | Inr late \<Rightarrow>
               Inr \<lparr>total = length ts,
                    completed = length (filter (\<lambda>t. t ''status'' = Some (JStr ''completed'')) ts),
                    inProgress = length (filter (\<lambda>t. t ''status'' = Some (JStr ''in-progress'')) ts),
                    overdue = length late\<rparr>))"

text \<open>
  \<^verbatim>\<open>Math.round((completed / total) * 100)\<close> is double arithmetic.  \<open>fl\<close> rounds a positive
  rational to the nearest double (53 significant bits, ties to even; the quotients and
  products here are far from the ends of the exponent range), \<open>math_round\<close> is
  \<^verbatim>\<open>Math.round\<close>, which rounds halves up.
\<close>

definition round_half_even :: "rat \<Rightarrow> int" where
  "round_half_even m =
     (let f = \<lfloor>m\<rfloor>; d = m - of_int f
      in if d < 1 / 2 then f else if 1 / 2 < d then f + 1 else if even f then f else f + 1)"

definition floor_log2 :: "rat \<Rightarrow> int" where
  "floor_log2 q =
     (let (p, d) = quotient_of q; e0 = bitlen p - bitlen d
      in if 2 powi e0 \<le> q then e0 else e0 - 1)"

definition fl :: "rat \<Rightarrow> rat" where
  "fl q =
     (if q \<le> 0 then 0
      else let e = floor_log2 q - 52
           in of_int (round_half_even (q / 2 powi e)) * 2 powi e)"

definition math_round :: "rat \<Rightarrow> int" where
  "math_round y = \<lfloor>y + 1 / 2\<rfloor>"

text \<open>\<^verbatim>\<open>taskStats\<close> of \<^verbatim>\<open>TaskProvider\<close>.\<close>

record task_stats = stats +
  completionRate :: int

definition taskStats :: "runtime \<Rightarrow> (nat \<Rightarrow> int) \<Rightarrow> obj list \<Rightarrow> js_error + task_stats" where
  "taskStats rt clock tasks =
     (let total = length tasks;
          completed = length (filter (\<lambda>t. t ''status'' = Some (JStr ''completed'')) tasks);
          inProgress = length (filter (\<lambda>t. t ''status'' = Some (JStr ''in-progress'')) tasks)
      in case overdue_indices rt clock tasks of
           Inl e \<Rightarrow> Inl e
         | Inr late \<Rightarrow>
             let overdue = length late;
                 completionRate =
                   (if 0 < total
                    then math_round (fl (fl (rat_of_nat completed / rat_of_nat total) * 100))
                    else 0)
             in Inr \<lparr>total = total, completed = completed, inProgress = inProgress,
                     overdue = overdue, completionRate = completionRate\<rparr>)"

text \<open>
  The selections \<^verbatim>\<open>TaskBoard\<close> keeps in local storage; each is a string written by an
  input or a select.
\<close>

record selections =
  searchTerm :: string
  statusFilter :: string
  priorityFilter :: string
  sortBy :: string
  sortOrder :: string

text \<open>
  \<^verbatim>\<open>task.tags.some(tag => tag.toLowerCase().includes(s))\<close>, stopping at the first match;
  \<open>s\<close> is the lower-cased search term.
\<close>

fun tags_some :: "(string \<Rightarrow> string) \<Rightarrow> string \<Rightarrow> json list \<Rightarrow> js_error + bool" where
  "tags_some lower s [] = Inr False"
| "tags_some lower s (JStr tag # tags) =
     (if str_includes (lower tag) s then Inr True else tags_some lower s tags)"
| "tags_some lower s (tag # tags) = Inl TypeError"

text \<open>\<^verbatim>\<open>matchesSearch\<close>: the chain of \<^verbatim>\<open>||\<close> evaluates left to right and stops when true.\<close>

definition matchesSearch :: "runtime \<Rightarrow> string \<Rightarrow> obj \<Rightarrow> js_error + bool" where
  "matchesSearch rt term task =
     (if term = [] then Inr True
      else case lower_of (toLowerCase rt) (task ''title'') of
        Inl e \<Rightarrow> Inl e
      | Inr t \<Rightarrow>
          if str_includes t (toLowerCase rt term) then Inr True
          else (case lower_of (toLowerCase rt) (task ''description'') of
                  Inl e \<Rightarrow> Inl e
                | Inr d \<Rightarrow>
                    if str_includes d (toLowerCase rt term) then Inr True
                    else (case task ''tags'' of
                            Some (JArr tags) \<Rightarrow>
                              tags_some (toLowerCase rt) (toLowerCase rt term) tags
                          | _ \<Rightarrow> Inl TypeError)))"

text \<open>The callback of \<^verbatim>\<open>tasks.filter\<close>: all three tests are evaluated, then combined.\<close>

definition task_passes :: "runtime \<Rightarrow> selections \<Rightarrow> obj \<Rightarrow> js_error + bool" where
  "task_passes rt sel task =
     (case matchesSearch rt (searchTerm sel) task of
        Inl e \<Rightarrow> Inl e
      | Inr matches \<Rightarrow>
          let matchesStatus =
                (statusFilter sel = ''all'' \<or> task ''status'' = Some (JStr (statusFilter sel)));
              matchesPriority =
                (priorityFilter sel = ''all'' \<or> task ''priority'' = Some (JStr (priorityFilter sel)))
          in Inr (matches \<and> matchesStatus \<and> matchesPriority))"

text \<open>The local \<^verbatim>\<open>filtered\<close>: the result of \<^verbatim>\<open>tasks.filter\<close>, before it is sorted.\<close>

definition filtered_tasks :: "runtime \<Rightarrow> selections \<Rightarrow> obj list \<Rightarrow> js_error + obj list" where
  "filtered_tasks rt sel tasks = filter_e (task_passes rt sel) tasks"

text \<open>
  A value used as a property key is converted to a string.  For a parsed JSON value:
  an array is the texts of its elements joined by commas, with the empty text for
  \<^verbatim>\<open>null\<close>; an object is \<^verbatim>\<open>[object Object]\<close>, unless it has a property \<^verbatim>\<open>toString\<close> of its
  own, which is not callable and makes the conversion throw.
\<close>

fun to_string :: "runtime \<Rightarrow> json \<Rightarrow> js_error + string"
  and join_strings :: "runtime \<Rightarrow> json list \<Rightarrow> js_error + string" where
  "to_string rt JNull = Inr ''null''"
| "to_string rt (JBool b) = Inr (if b then ''true'' else ''false'')"
| "to_string rt (JNum n) = Inr (number_text rt n)"
| "to_string rt (JStr s) = Inr s"
| "to_string rt (JArr xs) = join_strings rt xs"
| "to_string rt (JObj m) = (if m ''toString'' = None then Inr ''[object Object]'' else Inl TypeError)"
| "join_strings rt [] = Inr []"
| "join_strings rt (x # xs) =
     (case (if x = JNull then Inr [] else to_string rt x) of
        Inl e \<Rightarrow> Inl e
      | Inr s \<Rightarrow>
          if xs = [] then Inr s
          else (case join_strings rt xs of Inl e \<Rightarrow> Inl e | Inr r \<Rightarrow> Inr (s @ '','' @ r)))"

definition to_key :: "runtime \<Rightarrow> json option \<Rightarrow> js_error + string" where
  "to_key rt v = (case v of None \<Rightarrow> Inr ''undefined'' | Some j \<Rightarrow> to_string rt j)"

text \<open>
  The names under which every object literal inherits a value from
  \<^verbatim>\<open>Object.prototype\<close>: eleven built-in functions and \<^verbatim>\<open>__proto__\<close>, the prototype itself.
\<close>

definition object_prototype_names :: "string list" where
  "object_prototype_names =
     [''constructor'', ''hasOwnProperty'', ''isPrototypeOf'', ''propertyIsEnumerable'',
      ''toLocaleString'', ''toString'', ''valueOf'', ''__proto__'',
      ''__defineGetter__'', ''__defineSetter__'', ''__lookupGetter__'', ''__lookupSetter__'']"

text \<open>
  What \<^verbatim>\<open><\<close> and \<^verbatim>\<open>></\<close> see of the comparator's two values once each is made a primitive:
  a string, or a number, with \<open>KNum None\<close> for \<^verbatim>\<open>NaN\<close> and \<^verbatim>\<open>undefined\<close>.  Two strings are
  compared by code units and two numbers by value; a string that is not numeric (the
  text of a built-in function or of an object) against a number, and anything against
  \<^verbatim>\<open>NaN\<close>, is false both ways.
\<close>

datatype sortkey = KStr string | KNum "int option"

text \<open>
  \<^verbatim>\<open>table[v]\<close> on one of the comparator's two object literals: the number the table
  holds under the key, else the value inherited under it (a built-in function, whose
  primitive is its source text, or the prototype, whose primitive is
  \<^verbatim>\<open>[object Object]\<close>), else \<^verbatim>\<open>undefined\<close>.
\<close>

definition priorityOrder :: "(string \<times> int) list" where
  "priorityOrder = [(''high'', 3), (''medium'', 2), (''low'', 1)]"

definition statusOrder :: "(string \<times> int) list" where
  "statusOrder = [(''todo'', 1), (''in-progress'', 2), (''completed'', 3)]"

definition table_value :: "runtime \<Rightarrow> (string \<times> int) list \<Rightarrow> json option \<Rightarrow> js_error + sortkey" where
  "table_value rt table v =
     (case to_key rt v of
        Inl e \<Rightarrow> Inl e
      | Inr k \<Rightarrow>
          Inr (case map_of table k of
                 Some n \<Rightarrow> KNum (Some n)
               | None \<Rightarrow>
                   if k \<in> set object_prototype_names
                   then KStr (if k = ''__proto__'' then ''[object Object]'' else native_text rt k)
                   else KNum None))"

text \<open>The \<^verbatim>\<open>switch (sortBy)\<close> of the comparator, for one of its two arguments.\<close>

definition sort_value :: "runtime \<Rightarrow> string \<Rightarrow> obj \<Rightarrow> js_error + sortkey" where
  "sort_value rt by a =
     (if by = ''title'' then
        (case lower_of (toLowerCase rt) (a ''title'') of Inl e \<Rightarrow> Inl e | Inr s \<Rightarrow> Inr (KStr s))
      else if by = ''priority'' then table_value rt priorityOrder (a ''priority'')
      else if by = ''dueDate'' then
        (case date_value rt (if truthy (a ''dueDate'') then a ''dueDate''
                             else Some (JStr ''9999-12-31'')) of
           Inl e \<Rightarrow> Inl e
         | Inr d \<Rightarrow> Inr (KNum d))
      else if by = ''status'' then table_value rt statusOrder (a ''status'')
      else (case date_value rt (a ''createdAt'') of Inl e \<Rightarrow> Inl e | Inr d \<Rightarrow> Inr (KNum d)))"

text \<open>\<^verbatim>\<open><\<close> on strings compares code units.\<close>

fun str_less :: "string \<Rightarrow> string \<Rightarrow> bool" where
  "str_less [] [] = False"
| "str_less [] (y # ys) = True"
| "str_less (x # xs) [] = False"
| "str_less (x # xs) (y # ys) =
     ((of_char x :: nat) < of_char y \<or> (x = y \<and> str_less xs ys))"

fun key_less :: "sortkey \<Rightarrow> sortkey \<Rightarrow> bool" where
  "key_less (KStr a) (KStr b) = str_less a b"
| "key_less (KNum (Some a)) (KNum (Some b)) = (a < b)"
| "key_less a b = False"

text \<open>The two \<^verbatim>\<open>if\<close> statements that end the comparator.\<close>

definition compare_values :: "string \<Rightarrow> sortkey \<Rightarrow> sortkey \<Rightarrow> int" where
  "compare_values order aValue bValue =
     (if key_less aValue bValue then (if order = ''asc'' then - 1 else 1)
      else if key_less bValue aValue then (if order = ''asc'' then 1 else - 1)
      else 0)"

text \<open>The comparator: the value of \<open>a\<close>, then the value of \<open>b\<close>, then the comparison.\<close>

definition compare_tasks :: "runtime \<Rightarrow> selections \<Rightarrow> obj \<Rightarrow> obj \<Rightarrow> js_error + int" where
  "compare_tasks rt sel a b =
     (case sort_value rt (sortBy sel) a of
        Inl e \<Rightarrow> Inl e
      | Inr aValue \<Rightarrow>
          (case sort_value rt (sortBy sel) b of
             Inl e \<Rightarrow> Inl e
           | Inr bValue \<Rightarrow> Inr (compare_values (sortOrder sel) aValue bValue)))"

text \<open>\<^verbatim>\<open>filteredAndSortedTasks\<close> of \<^verbatim>\<open>TaskBoard\<close>.\<close>

definition filteredAndSortedTasks ::
  "runtime \<Rightarrow> selections \<Rightarrow> obj list option \<Rightarrow> js_error + obj list" where
  "filteredAndSortedTasks rt sel tasks =
     (case tasks of
        None \<Rightarrow> Inr []
      | Some ts \<Rightarrow>
          (case filtered_tasks rt sel ts of
             Inl e \<Rightarrow> Inl e
           | Inr filtered \<Rightarrow> array_sort rt (compare_tasks rt sel) filtered))"

text \<open>
  \<^verbatim>\<open>tasksByStatus\<close>.  For each task of the view in turn, \<^verbatim>\<open>grouped[task.status]\<close> is one
  of the three arrays, and the task is pushed to it; or it is a value inherited from
  \<^verbatim>\<open>Object.prototype\<close>, which is truthy and has no \<^verbatim>\<open>push\<close>, and the call throws; or it
  is \<^verbatim>\<open>undefined\<close>, and the task is skipped.  Each group keeps the order of the view.
\<close>

record grouped =
  todo :: "obj list"
  in_progress :: "obj list"
  completed_group :: "obj list"

fun tasksByStatus :: "runtime \<Rightarrow> obj list \<Rightarrow> js_error + grouped" where
  "tasksByStatus rt [] = Inr \<lparr>todo = [], in_progress = [], completed_group = []\<rparr>"
| "tasksByStatus rt (task # view) =
     (case to_key rt (task ''status'') of
        Inl e \<Rightarrow> Inl e
      | Inr k \<Rightarrow>
          if k \<in> set object_prototype_names then Inl TypeError
          else (case tasksByStatus rt view of
                  Inl e \<Rightarrow> Inl e
                | Inr g \<Rightarrow>
                    Inr (if k = ''todo'' then g\<lparr>todo := task # todo g\<rparr>
                         else if k = ''in-progress'' then g\<lparr>in_progress := task # in_progress g\<rparr>
                         else if k = ''completed'' then g\<lparr>completed_group := task # completed_group g\<rparr>
                         else g)))"

text \<open>
  Everything one render derives from its inputs; \<open>board_clock\<close> and \<open>context_clock\<close> are
  the clock readings of the two statistics.
\<close>

record derived =
  d_stats :: "js_error + stats"
  d_taskStats :: "js_error + task_stats"
  d_view :: "js_error + obj list"
  d_groups :: "js_error + grouped"

definition derive ::
  "runtime \<Rightarrow> (nat \<Rightarrow> int) \<Rightarrow> (nat \<Rightarrow> int) \<Rightarrow> selections \<Rightarrow> obj list \<Rightarrow> derived" where
  "derive rt board_clock context_clock sel tasks =
     \<lparr>d_stats = board_stats rt board_clock (Some tasks),
      d_taskStats = taskStats rt context_clock tasks,
      d_view = filteredAndSortedTasks rt sel (Some tasks),
      d_groups =
        (case filteredAndSortedTasks rt sel (Some tasks) of
           Inl e \<Rightarrow> Inl e
         | Inr view \<Rightarrow> tasksByStatus rt view)\<rparr>"

subsection \<open>A runtime for the examples\<close>

text \<open>
  The examples are evaluated with a runtime that agrees with a real one on what they
  contain: ASCII text, the date-only forms \<^verbatim>\<open>2025-01-20\<close>, \<^verbatim>\<open>2025-01-25\<close> and \<^verbatim>\<open>9999-12-31\<close>
  (midnight UTC of the day), no number and no inherited name as a property key, and
  views of at most one task, which no sort reorders.  Its sort is an insertion sort.
\<close>

fun example_insert ::
  "(obj \<Rightarrow> obj \<Rightarrow> js_error + int) \<Rightarrow> obj \<Rightarrow> obj list \<Rightarrow> js_error + obj list" where
  "example_insert cmp x [] = Inr [x]"
| "example_insert cmp x (y # ys) =
     (case cmp x y of
        Inl e \<Rightarrow> Inl e
      | Inr c \<Rightarrow>
          if 0 < c
          then (case example_insert cmp x ys of Inl e \<Rightarrow> Inl e | Inr r \<Rightarrow> Inr (y # r))
          else Inr (x # y # ys))"

fun example_sort :: "(obj \<Rightarrow> obj \<Rightarrow> js_error + int) \<Rightarrow> obj list \<Rightarrow> js_error + obj list" where
  "example_sort cmp [] = Inr []"
| "example_sort cmp (x # xs) =
     (case example_sort cmp xs of Inl e \<Rightarrow> Inl e | Inr r \<Rightarrow> example_insert cmp x r)"

definition example_runtime :: runtime where
  "example_runtime =
     \<lparr>toLowerCase = ascii_lower,
      date_value =
        (\<lambda>v. Inr (if v = Some (JStr ''2025-01-20'') then Some 1737331200000
                   else if v = Some (JStr ''2025-01-25'') then Some 1737763200000
                   else if v = Some (JStr ''9999-12-31'') then Some 253402214400000
                   else None)),
      number_text = (\<lambda>n. []),
      native_text = (\<lambda>k. []),
      array_sort = example_sort\<rparr>"

subsection \<open>Notions the client properties are stated with\<close>

text \<open>The search term is a case-insensitive substring of at least one tag of the task.\<close>

fun tag_has :: "runtime \<Rightarrow> string \<Rightarrow> json \<Rightarrow> bool" where
  "tag_has rt needle (JStr tag) = ci_substring (toLowerCase rt) needle tag"
| "tag_has rt needle v = False"

fun tag_contains :: "runtime \<Rightarrow> string \<Rightarrow> obj \<Rightarrow> bool" where
  "tag_contains rt needle t =
     (case t ''tags'' of Some (JArr tags) \<Rightarrow> list_ex (tag_has rt needle) tags | _ \<Rightarrow> False)"

text \<open>
  The client's text search can read a task when the term is empty, or the title is a
  string and, unless the title already contains the term, the description is a string
  and, unless the description contains it, the tags are an array whose elements up to
  the first one that contains the term are strings.  On any other task the callback
  throws.
\<close>

fun tags_read :: "runtime \<Rightarrow> string \<Rightarrow> json list \<Rightarrow> bool" where
  "tags_read rt needle [] = True"
| "tags_read rt needle (JStr tag # tags) =
     (ci_substring (toLowerCase rt) needle tag \<or> tags_read rt needle tags)"
| "tags_read rt needle (v # tags) = False"

fun tags_readable :: "runtime \<Rightarrow> string \<Rightarrow> json option \<Rightarrow> bool" where
  "tags_readable rt needle (Some (JArr tags)) = tags_read rt needle tags"
| "tags_readable rt needle v = False"

definition client_search_reads :: "runtime \<Rightarrow> string \<Rightarrow> obj \<Rightarrow> bool" where
  "client_search_reads rt needle t \<longleftrightarrow>
     needle = []
     \<or> (is_str (t ''title'')
        \<and> (field_contains (toLowerCase rt) ''title'' needle t
           \<or> (is_str (t ''description'')
              \<and> (field_contains (toLowerCase rt) ''description'' needle t
                 \<or> tags_readable rt needle (t ''tags'')))))"

text \<open>
  What the client's filter admits: the term is empty or is a case-insensitive substring
  of the title, of the description or of a tag, and the status and priority selections
  are \<^verbatim>\<open>all\<close> or equal to the task's fields.
\<close>

definition client_passes :: "runtime \<Rightarrow> selections \<Rightarrow> obj \<Rightarrow> bool" where
  "client_passes rt sel t \<longleftrightarrow>
     (searchTerm sel = []
      \<or> field_contains (toLowerCase rt) ''title'' (searchTerm sel) t
      \<or> field_contains (toLowerCase rt) ''description'' (searchTerm sel) t
      \<or> tag_contains rt (searchTerm sel) t)
     \<and> (statusFilter sel = ''all'' \<or> t ''status'' = Some (JStr (statusFilter sel)))
     \<and> (priorityFilter sel = ''all'' \<or> t ''priority'' = Some (JStr (priorityFilter sel)))"

text \<open>
  The overdue filter reads the due date of a task whose due date is truthy and whose
  status is not \<^verbatim>\<open>completed\<close>.  Such a task is late at a time when its due date is a
  valid date before it, and it falls due between two times when its due date is a
  valid date from the first on and before the second.
\<close>

definition reads_due :: "obj \<Rightarrow> bool" where
  "reads_due t \<longleftrightarrow> truthy (t ''dueDate'') \<and> t ''status'' \<noteq> Some (JStr ''completed'')"

definition due_read_throws :: "runtime \<Rightarrow> obj \<Rightarrow> bool" where
  "due_read_throws rt t \<longleftrightarrow> reads_due t \<and> isl (date_value rt (t ''dueDate''))"

definition is_late :: "runtime \<Rightarrow> int \<Rightarrow> obj \<Rightarrow> bool" where
  "is_late rt now t \<longleftrightarrow>
     reads_due t
     \<and> (case date_value rt (t ''dueDate'') of Inr (Some due) \<Rightarrow> due < now | _ \<Rightarrow> False)"

definition falls_due :: "runtime \<Rightarrow> int \<Rightarrow> int \<Rightarrow> obj \<Rightarrow> bool" where
  "falls_due rt now now' t \<longleftrightarrow>
     reads_due t
     \<and> (case date_value rt (t ''dueDate'') of
          Inr (Some due) \<Rightarrow> now \<le> due \<and> due < now'
        | _ \<Rightarrow> False)"

text \<open>
  The comparator can read a task when the value it sorts by is computed without
  throwing.
\<close>

definition sort_reads :: "runtime \<Rightarrow> selections \<Rightarrow> obj \<Rightarrow> bool" where
  "sort_reads rt sel t \<longleftrightarrow> \<not> isl (sort_value rt (sortBy sel) t)"

text \<open>
  The contract of \<^verbatim>\<open>Array.prototype.sort\<close> that the properties rely on: it throws only
  when the comparator throws on two elements of the array, and what it returns holds
  the elements of the array.
\<close>

definition sort_contract :: "runtime \<Rightarrow> bool" where
  "sort_contract rt \<longleftrightarrow>
     (\<forall>cmp xs. case array_sort rt cmp xs of
                 Inl e \<Rightarrow> \<exists>a\<in>set xs. \<exists>b\<in>set xs. isl (cmp a b)
               | Inr ys \<Rightarrow> set ys = set xs)"

text \<open>
  The state after \<^verbatim>\<open>POST /api/tasks\<close> with body \<^verbatim>\<open>{"title": "Pay bills", "tags": null}\<close>
  on the initial array.
\<close>

definition untagged_state :: "obj list" where
  "untagged_state =
     snd (handle (PostTask ''3'' ''T1'' ''T1'' [''title'' \<mapsto> JStr ''Pay bills'', ''tags'' \<mapsto> JNull])
            (initial_tasks ''T0'' ''T0'' ''T0'' ''T0''))"

section \<open>Properties of the endpoint layer\<close>

lemma findIndex_Some:
  "findIndex P xs = Some i \<Longrightarrow> i < length xs \<and> P (xs ! i) \<and> (\<forall>j<i. \<not> P (xs ! j))"
proof (induction xs arbitrary: i)
  case Nil
  then show ?case by simp
next
  case (Cons x xs)
  show ?case
  proof (cases "P x")
    case True
    with Cons.prems show ?thesis by simp
  next
    case False
    with Cons.prems obtain k where k: "findIndex P xs = Some k" "i = Suc k"
      by auto
    from Cons.IH [OF k(1)] False k(2) show ?thesis
      by (auto simp: less_Suc_eq_0_disj)
  qed
qed

lemma findIndex_None: "findIndex P xs = None \<longleftrightarrow> (\<forall>x\<in>set xs. \<not> P x)"
  by (induction xs) auto

lemma findIndex_exists: "\<exists>x\<in>set xs. P x \<Longrightarrow> \<exists>i. findIndex P xs = Some i"
  using findIndex_None [of P xs] by (cases "findIndex P xs") auto

text \<open>
  C1.  A \<^verbatim>\<open>POST /api/tasks\<close> whose body has a truthy title (every non-empty string is
  one) is answered 201 with the new task, and that task is appended to the stored
  array.  The task carries the body's title, status \<^verbatim>\<open>todo\<close>, the body's priority or
  \<^verbatim>\<open>medium\<close> when the body has none, an empty subtask list, the body's tags or the
  empty list when the body has none, and the empty string as assignee when the body has
  none.
\<close>

theorem post_task_created:
  assumes "truthy (body ''title'')"
  shows "\<exists>t. post_task uuid created updated body tasks = (Json 201 (JObj t), tasks @ [t])
           \<and> t ''title'' = body ''title''
           \<and> t ''status'' = Some (JStr ''todo'')
           \<and> t ''priority'' = (case body ''priority'' of None \<Rightarrow> Some (JStr ''medium'') | Some p \<Rightarrow> Some p)
           \<and> t ''subtasks'' = Some (JArr [])
           \<and> t ''tags'' = (case body ''tags'' of None \<Rightarrow> Some (JArr []) | Some ts \<Rightarrow> Some ts)
           \<and> (body ''assignee'' = None \<longrightarrow> t ''assignee'' = Some (JStr ''''))"
  using assms by (simp add: post_task_def Let_def with_default_def js_or_def)

theorem post_task_created_witness:
  "\<exists>t. post_task ''u-1'' ''T1'' ''T2'' [''title'' \<mapsto> JStr ''Write spec''] [] = (Json 201 (JObj t), [t])
         \<and> t ''title'' = Some (JStr ''Write spec'')
         \<and> t ''status'' = Some (JStr ''todo'')
         \<and> t ''priority'' = Some (JStr ''medium'')
         \<and> t ''subtasks'' = Some (JArr [])
         \<and> t ''tags'' = Some (JArr [])
         \<and> t ''assignee'' = Some (JStr '''')"
  using post_task_created [of "[''title'' \<mapsto> JStr ''Write spec'']" "''u-1''" "''T1''" "''T2''" "[]"]
  by simp

text \<open>
  C5.  A \<^verbatim>\<open>POST /api/tasks\<close> whose title is missing or is the empty string is answered
  400 and leaves the stored array as it was.
\<close>

theorem post_task_rejected:
  assumes "body ''title'' = None \<or> body ''title'' = Some (JStr '''')"
  shows "post_task uuid created updated body tasks = (Json 400 (error_body ''Title is required''), tasks)"
  using assms by (auto simp: post_task_def Let_def)

theorem post_task_rejected_witness:
  "post_task ''u-1'' ''T1'' ''T2'' [''description'' \<mapsto> JStr ''no title''] (initial_tasks ''a'' ''b'' ''c'' ''d'')
     = (Json 400 (error_body ''Title is required''), initial_tasks ''a'' ''b'' ''c'' ''d'')
   \<and> post_task ''u-1'' ''T1'' ''T2'' [''title'' \<mapsto> JStr ''''] [] = (Json 400 (error_body ''Title is required''), [])"
  using post_task_rejected [of "[''description'' \<mapsto> JStr ''no title'']" "''u-1''" "''T1''" "''T2''"
      "initial_tasks ''a'' ''b'' ''c'' ''d''"]
    post_task_rejected [of "[''title'' \<mapsto> JStr '''']" "''u-1''" "''T1''" "''T2''" "[]"]
  by simp

text \<open>
  C3.  For an id that some stored task has, \<^verbatim>\<open>PUT /api/tasks/:id\<close> answers 200 and
  replaces the first task with that id, at its position \<open>k\<close>, by the shallow merge of
  the old record with the body: a field the body lacks keeps its old value, a field
  the body has (\<^verbatim>\<open>id\<close>, \<^verbatim>\<open>status\<close> and \<^verbatim>\<open>priority\<close> included) takes the body's value,
  and \<^verbatim>\<open>updatedAt\<close> is the clock reading whatever the body says.  Every other position
  of the array is unchanged.
\<close>

theorem put_task_shallow_merge:
  assumes "\<exists>t\<in>set tasks. has_id i t"
  shows "\<exists>k new. k < length tasks \<and> has_id i (tasks ! k) \<and> (\<forall>j<k. \<not> has_id i (tasks ! j))
           \<and> put_task i now body tasks = (Json 200 (JObj new), tasks[k := new])
           \<and> (\<forall>f. f \<noteq> ''updatedAt'' \<longrightarrow> body f = None \<longrightarrow> new f = (tasks ! k) f)
           \<and> (\<forall>f. f \<noteq> ''updatedAt'' \<longrightarrow> body f \<noteq> None \<longrightarrow> new f = body f)
           \<and> new ''updatedAt'' = Some (JStr now)
           \<and> length (tasks[k := new]) = length tasks
           \<and> (\<forall>j<length tasks. j \<noteq> k \<longrightarrow> tasks[k := new] ! j = tasks ! j)"
proof -
  from findIndex_exists [OF assms] obtain k where k: "findIndex (has_id i) tasks = Some k"
    by blast
  define new where "new = ((tasks ! k) ++ body)(''updatedAt'' \<mapsto> JStr now)"
  have "put_task i now body tasks = (Json 200 (JObj new), tasks[k := new])"
    by (simp add: put_task_def k new_def Let_def)
  moreover have "\<forall>f. f \<noteq> ''updatedAt'' \<longrightarrow> body f = None \<longrightarrow> new f = (tasks ! k) f"
    by (simp add: new_def map_add_def)
  moreover have "\<forall>f. f \<noteq> ''updatedAt'' \<longrightarrow> body f \<noteq> None \<longrightarrow> new f = body f"
    by (auto simp: new_def map_add_def)
  moreover have "new ''updatedAt'' = Some (JStr now)"
    by (simp add: new_def)
  ultimately show ?thesis
    using findIndex_Some [OF k] by auto
qed

theorem put_task_shallow_merge_witness:
  "(\<exists>t\<in>set (initial_tasks ''a'' ''b'' ''c'' ''d''). has_id ''2'' t)
   \<and> (\<exists>k new. k < length (initial_tasks ''a'' ''b'' ''c'' ''d'')
         \<and> has_id ''2'' (initial_tasks ''a'' ''b'' ''c'' ''d'' ! k)
         \<and> (\<forall>j<k. \<not> has_id ''2'' (initial_tasks ''a'' ''b'' ''c'' ''d'' ! j))
         \<and> put_task ''2'' ''T9'' [''status'' \<mapsto> JStr ''completed''] (initial_tasks ''a'' ''b'' ''c'' ''d'')
             = (Json 200 (JObj new), (initial_tasks ''a'' ''b'' ''c'' ''d'')[k := new])
         \<and> (\<forall>f. f \<noteq> ''updatedAt'' \<longrightarrow> [''status'' \<mapsto> JStr ''completed''] f = None
               \<longrightarrow> new f = (initial_tasks ''a'' ''b'' ''c'' ''d'' ! k) f)
         \<and> (\<forall>f. f \<noteq> ''updatedAt'' \<longrightarrow> [''status'' \<mapsto> JStr ''completed''] f \<noteq> None
               \<longrightarrow> new f = [''status'' \<mapsto> JStr ''completed''] f)
         \<and> new ''updatedAt'' = Some (JStr ''T9'')
         \<and> length ((initial_tasks ''a'' ''b'' ''c'' ''d'')[k := new]) = length (initial_tasks ''a'' ''b'' ''c'' ''d'')
         \<and> (\<forall>j<length (initial_tasks ''a'' ''b'' ''c'' ''d''). j \<noteq> k
               \<longrightarrow> (initial_tasks ''a'' ''b'' ''c'' ''d'')[k := new] ! j = initial_tasks ''a'' ''b'' ''c'' ''d'' ! j))"
proof -
  have h: "\<exists>t\<in>set (initial_tasks ''a'' ''b'' ''c'' ''d''). has_id ''2'' t"
    by (simp add: initial_tasks_def has_id_def)
  show ?thesis
    by (rule conjI [OF h put_task_shallow_merge [OF h]])
qed

text \<open>
  C7.  When a task replace-merge, a subtask create, a subtask replace-merge or a
  subtask delete is answered with a 2xx status, the task it addressed (the first one
  with the id, at position \<open>k\<close>) has \<^verbatim>\<open>updatedAt\<close> equal to the clock reading afterwards.
\<close>

theorem mutation_refreshes_updatedAt:
  assumes "mutation_of r = Some (i, now)"
    and "handle r tasks = (res, tasks')"
    and "succeeded res"
  shows "\<exists>k. findIndex (has_id i) tasks = Some k \<and> k < length tasks'
           \<and> (tasks' ! k) ''updatedAt'' = Some (JStr now)"
proof (cases r)
  case (PutTask i' now' body)
  with assms show ?thesis
    by (auto simp: put_task_def Let_def error_body_def split: option.splits
          dest: findIndex_Some)
next
  case (PostSubtask i' uuid now' body)
  with assms show ?thesis
    by (auto simp: post_subtask_def Let_def split: option.splits json.splits if_splits
          dest: findIndex_Some)
next
  case (PutSubtask taskId subtaskId now' body)
  with assms show ?thesis
    by (auto simp: put_subtask_def Let_def split: option.splits json.splits sum.splits
          dest: findIndex_Some)
next
  case (DeleteSubtask taskId subtaskId now')
  with assms show ?thesis
    by (auto simp: delete_subtask_def Let_def split: option.splits json.splits sum.splits
          dest: findIndex_Some)
qed (use assms in auto)

theorem mutation_refreshes_updatedAt_witness:
  "mutation_of (PutSubtask ''1'' ''sub2'' ''T9'' [''completed'' \<mapsto> JBool True]) = Some (''1'', ''T9'')
   \<and> succeeded (fst (handle (PutSubtask ''1'' ''sub2'' ''T9'' [''completed'' \<mapsto> JBool True])
        (initial_tasks ''a'' ''b'' ''c'' ''d'')))
   \<and> (\<exists>k. findIndex (has_id ''1'') (initial_tasks ''a'' ''b'' ''c'' ''d'') = Some k
        \<and> (snd (handle (PutSubtask ''1'' ''sub2'' ''T9'' [''completed'' \<mapsto> JBool True])
             (initial_tasks ''a'' ''b'' ''c'' ''d'')) ! k) ''updatedAt'' = Some (JStr ''T9''))"
proof -
  let ?r = "PutSubtask ''1'' ''sub2'' ''T9'' [''completed'' \<mapsto> JBool True]"
  let ?ts = "initial_tasks ''a'' ''b'' ''c'' ''d''"
  have m: "mutation_of ?r = Some (''1'', ''T9'')"
    by simp
  have s: "succeeded (fst (handle ?r ?ts))"
    by (simp add: put_subtask_def initial_tasks_def has_id_def Let_def)
  from mutation_refreshes_updatedAt [OF m _ s, of ?ts "snd (handle ?r ?ts)"] m s
  show ?thesis
    by auto
qed

text \<open>
  C9.  On an existing task and a body with a truthy title, \<^verbatim>\<open>POST /api/tasks/:id/subtasks\<close>
  either creates a subtask or throws, and it throws exactly when the stored
  \<^verbatim>\<open>subtasks\<close> of the task is not an array.  The created subtask has the generated id,
  the body's title, \<^verbatim>\<open>completed\<close> false and no other field, and it is appended to the
  task's subtasks.  The whole outcome depends on the body through its title only.
\<close>

theorem post_subtask_created:
  assumes "\<exists>t\<in>set tasks. has_id i t"
    and "truthy (body ''title'')"
  shows "\<exists>k. findIndex (has_id i) tasks = Some k \<and> k < length tasks
           \<and> (\<forall>subtasks. (tasks ! k) ''subtasks'' = Some (JArr subtasks) \<longrightarrow>
                (\<exists>sub. post_subtask i uuid now body tasks =
                          (Inr (Json 201 (JObj sub)),
                           tasks[k := (tasks ! k)(''subtasks'' \<mapsto> JArr (subtasks @ [JObj sub]),
                                                ''updatedAt'' \<mapsto> JStr now)])
                   \<and> sub ''id'' = Some (JStr uuid)
                   \<and> sub ''title'' = body ''title''
                   \<and> sub ''completed'' = Some (JBool False)
                   \<and> (\<forall>f. f \<noteq> ''id'' \<and> f \<noteq> ''title'' \<and> f \<noteq> ''completed'' \<longrightarrow> sub f = None)))
           \<and> ((\<forall>subtasks. (tasks ! k) ''subtasks'' \<noteq> Some (JArr subtasks)) \<longrightarrow>
                post_subtask i uuid now body tasks = (Inl TypeError, tasks))
           \<and> (\<forall>body'. body' ''title'' = body ''title'' \<longrightarrow>
                post_subtask i uuid now body' tasks = post_subtask i uuid now body tasks)"
proof -
  from findIndex_exists [OF assms(1)] obtain k where k: "findIndex (has_id i) tasks = Some k"
    by (elim exE)
  have lt: "k < length tasks"
    using findIndex_Some [OF k] by simp
  define sub where "sub = Map.empty(''id'' \<mapsto> JStr uuid, ''title'' := body ''title'',
    ''completed'' \<mapsto> JBool False)"
  have created: "post_subtask i uuid now body tasks =
      (Inr (Json 201 (JObj sub)),
       tasks[k := (tasks ! k)(''subtasks'' \<mapsto> JArr (subtasks @ [JObj sub]),
                            ''updatedAt'' \<mapsto> JStr now)])"
    if "(tasks ! k) ''subtasks'' = Some (JArr subtasks)" for subtasks
    using that assms(2) by (simp add: post_subtask_def k Let_def sub_def)
  have f1: "sub ''id'' = Some (JStr uuid)"
    and f2: "sub ''title'' = body ''title''"
    and f3: "sub ''completed'' = Some (JBool False)"
    and f4: "\<forall>f. f \<noteq> ''id'' \<and> f \<noteq> ''title'' \<and> f \<noteq> ''completed'' \<longrightarrow> sub f = None"
    by (simp_all add: sub_def)
  have A: "\<forall>subtasks. (tasks ! k) ''subtasks'' = Some (JArr subtasks) \<longrightarrow>
      (\<exists>sub. post_subtask i uuid now body tasks =
                (Inr (Json 201 (JObj sub)),
                 tasks[k := (tasks ! k)(''subtasks'' \<mapsto> JArr (subtasks @ [JObj sub]),
                                      ''updatedAt'' \<mapsto> JStr now)])
         \<and> sub ''id'' = Some (JStr uuid)
         \<and> sub ''title'' = body ''title''
         \<and> sub ''completed'' = Some (JBool False)
         \<and> (\<forall>f. f \<noteq> ''id'' \<and> f \<noteq> ''title'' \<and> f \<noteq> ''completed'' \<longrightarrow> sub f = None))"
  proof (intro allI impI)
    fix subtasks
    assume a: "(tasks ! k) ''subtasks'' = Some (JArr subtasks)"
    show "\<exists>sub. post_subtask i uuid now body tasks =
                (Inr (Json 201 (JObj sub)),
                 tasks[k := (tasks ! k)(''subtasks'' \<mapsto> JArr (subtasks @ [JObj sub]),
                                      ''updatedAt'' \<mapsto> JStr now)])
         \<and> sub ''id'' = Some (JStr uuid)
         \<and> sub ''title'' = body ''title''
         \<and> sub ''completed'' = Some (JBool False)
         \<and> (\<forall>f. f \<noteq> ''id'' \<and> f \<noteq> ''title'' \<and> f \<noteq> ''completed'' \<longrightarrow> sub f = None)"
      by (rule exI [of _ sub], intro conjI) (rule created [OF a] f1 f2 f3 f4)+
  qed
  have B: "(\<forall>subtasks. (tasks ! k) ''subtasks'' \<noteq> Some (JArr subtasks)) \<longrightarrow>
      post_subtask i uuid now body tasks = (Inl TypeError, tasks)"
  proof
    assume "\<forall>subtasks. (tasks ! k) ''subtasks'' \<noteq> Some (JArr subtasks)"
    then show "post_subtask i uuid now body tasks = (Inl TypeError, tasks)"
      using assms(2)
      by (simp add: post_subtask_def k Let_def split: option.splits json.splits)
  qed
  have C: "\<forall>body'. body' ''title'' = body ''title'' \<longrightarrow>
      post_subtask i uuid now body' tasks = post_subtask i uuid now body tasks"
    by (simp add: post_subtask_def cong: option.case_cong)
  show ?thesis
    by (rule exI [of _ k], intro conjI) (rule k lt A B C)+
qed

theorem post_subtask_created_witness:
  "(\<exists>t\<in>set [[''id'' \<mapsto> JStr ''7'', ''subtasks'' \<mapsto> JArr []]]. has_id ''7'' t)
   \<and> truthy ([''title'' \<mapsto> JStr ''Buy milk'', ''completed'' \<mapsto> JBool True] ''title'')
   \<and> fst (post_subtask ''7'' ''u-9'' ''T9'' [''title'' \<mapsto> JStr ''Buy milk'', ''completed'' \<mapsto> JBool True]
        [[''id'' \<mapsto> JStr ''7'', ''subtasks'' \<mapsto> JArr []]])
      = fst (post_subtask ''7'' ''u-9'' ''T9'' [''title'' \<mapsto> JStr ''Buy milk'']
        [[''id'' \<mapsto> JStr ''7'', ''subtasks'' \<mapsto> JArr []]])"
proof -
  let ?ts = "[[''id'' \<mapsto> JStr ''7'', ''subtasks'' \<mapsto> JArr []]]"
  let ?body = "[''title'' \<mapsto> JStr ''Buy milk'', ''completed'' \<mapsto> JBool True]"
  have h1: "\<exists>t\<in>set ?ts. has_id ''7'' t"
    by (simp add: has_id_def)
  have h2: "truthy (?body ''title'')"
    by simp
  have "\<forall>body'. body' ''title'' = ?body ''title'' \<longrightarrow>
          post_subtask ''7'' ''u-9'' ''T9'' body' ?ts = post_subtask ''7'' ''u-9'' ''T9'' ?body ?ts"
    using post_subtask_created [where tasks = ?ts and i = "''7''" and body = ?body
        and uuid = "''u-9''" and now = "''T9''", OF h1 h2]
    by (elim exE conjE)
  then have imp: "[''title'' \<mapsto> JStr ''Buy milk''] ''title'' = ?body ''title'' \<longrightarrow>
      post_subtask ''7'' ''u-9'' ''T9'' [''title'' \<mapsto> JStr ''Buy milk''] ?ts
      = post_subtask ''7'' ''u-9'' ''T9'' ?body ?ts"
    by (rule spec)
  have e: "[''title'' \<mapsto> JStr ''Buy milk''] ''title'' = ?body ''title''"
    by simp
  have "post_subtask ''7'' ''u-9'' ''T9'' [''title'' \<mapsto> JStr ''Buy milk''] ?ts
      = post_subtask ''7'' ''u-9'' ''T9'' ?body ?ts"
    by (rule mp [OF imp e])
  then have "fst (post_subtask ''7'' ''u-9'' ''T9'' ?body ?ts)
      = fst (post_subtask ''7'' ''u-9'' ''T9'' [''title'' \<mapsto> JStr ''Buy milk''] ?ts)"
    by (rule arg_cong [OF sym])
  with h1 h2 show ?thesis
    by (intro conjI)
qed

lemma differs_by_member: "x \<in> A \<Longrightarrow> x \<notin> B \<Longrightarrow> B \<noteq> A"
  by blast

lemma filter_e_if:
  assumes "\<And>x. P x = (if R x then Inr (Q x) else Inl TypeError)"
  shows "filter_e P xs = (if \<forall>x\<in>set xs. R x then Inr (filter Q xs) else Inl TypeError)"
proof (induction xs)
  case Nil
  show ?case by simp
next
  case (Cons x xs)
  show ?case
  proof (cases "R x")
    case True
    then have "P x = Inr (Q x)"
      by (simp add: assms)
    with True Cons.IH show ?thesis
      by simp
  next
    case False
    then have "P x = Inl TypeError"
      by (simp add: assms)
    with False show ?thesis
      by simp
  qed
qed

lemma field_equals_string:
  "field_equals f (Some (QStr s)) = (\<lambda>t. t f = Some (JStr s))"
  by (rule ext) simp

lemma filteredTasks_status:
  "s \<noteq> [] \<Longrightarrow> filteredTasks lower (Some (QStr s)) None None tasks
     = Inr (filter (\<lambda>t. t ''status'' = Some (JStr s)) tasks)"
  by (simp add: filteredTasks_def field_equals_string)

lemma status_subset_filter:
  "s \<noteq> [] \<Longrightarrow> status_subset lower s tasks = filter (\<lambda>t. t ''status'' = Some (JStr s)) tasks"
  by (simp add: status_subset_def filteredTasks_status)

text \<open>
  C6, as the code has it.  In every state of the server, reachable or not,
  \<^verbatim>\<open>GET /api/tasks?status=completed\<close> lists exactly the tasks whose status is
  \<^verbatim>\<open>completed\<close>.  The three status-filtered results are pairwise disjoint, and their union
  is the set of the tasks whose status is one of the three values; a task with any
  other status, which \<^verbatim>\<open>PUT\<close> can store, is in none of them.
\<close>

theorem status_filter_partition:
  "get_tasks lower (Some (QStr ''completed'')) None None tasks
     = Inr (Json 200 (JArr (map JObj (filter (\<lambda>t. t ''status'' = Some (JStr ''completed'')) tasks))))
   \<and> set (status_subset lower ''todo'' tasks) \<inter> set (status_subset lower ''in-progress'' tasks) = {}
   \<and> set (status_subset lower ''todo'' tasks) \<inter> set (status_subset lower ''completed'' tasks) = {}
   \<and> set (status_subset lower ''in-progress'' tasks) \<inter> set (status_subset lower ''completed'' tasks) = {}
   \<and> set (status_subset lower ''todo'' tasks) \<union> set (status_subset lower ''in-progress'' tasks)
       \<union> set (status_subset lower ''completed'' tasks)
     = {t \<in> set tasks. t ''status'' = Some (JStr ''todo'') \<or> t ''status'' = Some (JStr ''in-progress'')
          \<or> t ''status'' = Some (JStr ''completed'')}"
proof -
  have c: "get_tasks lower (Some (QStr ''completed'')) None None tasks
     = Inr (Json 200 (JArr (map JObj (filter (\<lambda>t. t ''status'' = Some (JStr ''completed'')) tasks))))"
    by (simp add: get_tasks_def filteredTasks_status)
  have s1: "status_subset lower ''todo'' tasks = filter (\<lambda>t. t ''status'' = Some (JStr ''todo'')) tasks"
    by (rule status_subset_filter) simp
  have s2: "status_subset lower ''in-progress'' tasks
      = filter (\<lambda>t. t ''status'' = Some (JStr ''in-progress'')) tasks"
    by (rule status_subset_filter) simp
  have s3: "status_subset lower ''completed'' tasks
      = filter (\<lambda>t. t ''status'' = Some (JStr ''completed'')) tasks"
    by (rule status_subset_filter) simp
  have d12: "Some (JStr ''todo'') \<noteq> Some (JStr ''in-progress'')"
    and d13: "Some (JStr ''todo'') \<noteq> Some (JStr ''completed'')"
    and d23: "Some (JStr ''in-progress'') \<noteq> Some (JStr ''completed'')"
    by simp_all
  define a where "a = Some (JStr ''todo'')"
  define b where "b = Some (JStr ''in-progress'')"
  define d where "d = Some (JStr ''completed'')"
  have ne: "a \<noteq> b" "a \<noteq> d" "b \<noteq> d"
    using d12 d13 d23 by (simp_all add: a_def b_def d_def)
  have "set (filter (\<lambda>t. t ''status'' = a) tasks) \<inter> set (filter (\<lambda>t. t ''status'' = b) tasks) = {}
    \<and> set (filter (\<lambda>t. t ''status'' = a) tasks) \<inter> set (filter (\<lambda>t. t ''status'' = d) tasks) = {}
    \<and> set (filter (\<lambda>t. t ''status'' = b) tasks) \<inter> set (filter (\<lambda>t. t ''status'' = d) tasks) = {}
    \<and> set (filter (\<lambda>t. t ''status'' = a) tasks) \<union> set (filter (\<lambda>t. t ''status'' = b) tasks)
        \<union> set (filter (\<lambda>t. t ''status'' = d) tasks)
      = {t \<in> set tasks. t ''status'' = a \<or> t ''status'' = b \<or> t ''status'' = d}"
    using ne by auto
  then show ?thesis
    unfolding s1 s2 s3 a_def b_def d_def using c by simp
qed

text \<open>
  C6 as stated fails in a reachable state: after \<^verbatim>\<open>PUT /api/tasks/1\<close> with status
  \<^verbatim>\<open>archived\<close> the first task is stored but is in none of the three status-filtered
  results, so their union is not the collection.
\<close>

lemma archived_state_eq:
  "archived_state =
     [(initial_tasks ''T0'' ''T0'' ''T0'' ''T0'' ! 0)
        (''status'' \<mapsto> JStr ''archived'', ''updatedAt'' \<mapsto> JStr ''T9''),
      initial_tasks ''T0'' ''T0'' ''T0'' ''T0'' ! 1]"
  by (simp add: archived_state_def put_task_def initial_tasks_def has_id_def Let_def)

theorem status_partition_counterexample:
  "reachable archived_state
   \<and> set (status_subset ascii_lower ''todo'' archived_state)
       \<union> set (status_subset ascii_lower ''in-progress'' archived_state)
       \<union> set (status_subset ascii_lower ''completed'' archived_state)
     \<noteq> set archived_state"
proof -
  have r: "reachable archived_state"
    unfolding archived_state_def by (rule reachable.request [OF reachable.boot])
  let ?t = "(initial_tasks ''T0'' ''T0'' ''T0'' ''T0'' ! 0)
        (''status'' \<mapsto> JStr ''archived'', ''updatedAt'' \<mapsto> JStr ''T9'')"
  have st: "?t ''status'' = Some (JStr ''archived'')"
    by simp
  have mem: "?t \<in> set archived_state"
    by (simp add: archived_state_eq)
  have s1: "status_subset ascii_lower ''todo'' archived_state
      = filter (\<lambda>t. t ''status'' = Some (JStr ''todo'')) archived_state"
    by (rule status_subset_filter) simp
  have s2: "status_subset ascii_lower ''in-progress'' archived_state
      = filter (\<lambda>t. t ''status'' = Some (JStr ''in-progress'')) archived_state"
    by (rule status_subset_filter) simp
  have s3: "status_subset ascii_lower ''completed'' archived_state
      = filter (\<lambda>t. t ''status'' = Some (JStr ''completed'')) archived_state"
    by (rule status_subset_filter) simp
  have "?t \<notin> set (status_subset ascii_lower ''todo'' archived_state)
       \<union> set (status_subset ascii_lower ''in-progress'' archived_state)
       \<union> set (status_subset ascii_lower ''completed'' archived_state)"
    unfolding s1 s2 s3 using st by simp
  with mem have "set (status_subset ascii_lower ''todo'' archived_state)
       \<union> set (status_subset ascii_lower ''in-progress'' archived_state)
       \<union> set (status_subset ascii_lower ''completed'' archived_state) \<noteq> set archived_state"
    by (rule differs_by_member)
  with r show ?thesis
    by (rule conjI)
qed

lemma field_equals_passes: "q_truthy q \<Longrightarrow> field_equals f q = passes_field f q"
  by (cases q rule: q_truthy.cases) (simp_all add: fun_eq_iff)

lemma passes_field_falsy: "\<not> q_truthy q \<Longrightarrow> passes_field f q = (\<lambda>t. True)"
  by (cases q rule: q_truthy.cases) (simp_all add: fun_eq_iff)

lemma field_step:
  "(if q_truthy q then filter (field_equals f q) xs else xs) = filter (passes_field f q) xs"
  by (cases "q_truthy q") (simp_all add: field_equals_passes passes_field_falsy)

lemma passes_search_falsy: "\<not> q_truthy q \<Longrightarrow> passes_search lower q = (\<lambda>t. True)"
  by (cases q rule: q_truthy.cases) (simp_all add: fun_eq_iff)

lemma matches_search_string:
  "matches_search lower (Some (QStr needle)) t
     = (if search_reads lower (Some (QStr needle)) t
        then Inr (field_contains lower ''title'' needle t \<or> field_contains lower ''description'' needle t)
        else Inl TypeError)"
proof (cases "t ''title''" rule: is_str.cases)
  case (1 a)
  show ?thesis
  proof (cases "t ''description''" rule: is_str.cases)
    case (1 d)
    with \<open>t ''title'' = Some (JStr a)\<close> show ?thesis
      by (simp add: matches_search_def field_contains_def ci_substring_def str_includes_def)
  qed (simp_all add: matches_search_def field_contains_def ci_substring_def str_includes_def
        \<open>t ''title'' = Some (JStr a)\<close>)
qed (simp_all add: matches_search_def)

lemma matches_search_cases:
  assumes "q_truthy search"
  shows "matches_search lower search t
     = (if search_reads lower search t then Inr (passes_search lower search t) else Inl TypeError)"
proof (cases search rule: q_truthy.cases)
  case 1
  with assms show ?thesis by simp
next
  case (2 needle)
  with assms have "needle \<noteq> []"
    by simp
  with 2 show ?thesis
    by (simp only: matches_search_string passes_search.simps) simp
next
  case 3
  have "matches_search lower (Some QMulti) t = Inl TypeError"
    by (cases "t ''title''" rule: is_str.cases) (simp_all add: matches_search_def)
  with 3 show ?thesis
    by simp
qed

text \<open>
  C4, as the code has it.  \<^verbatim>\<open>GET /api/tasks\<close> applies a parameter only when it is
  non-empty: a non-empty status or priority string admits the tasks whose field is that
  string and an array admits none; a non-empty search term admits the tasks of which
  it is a case-insensitive substring of the title or of the description.  A search
  that is applied is evaluated on the tasks that pass the status and the priority
  filter: when it cannot read one of them (the search parameter is an array, or the
  title is not a string, or the title does not contain the term and the description is
  not a string), the handler throws and answers no list.  In every other case the
  answer is 200 with exactly the tasks that pass all three filters, in stored order.
\<close>

theorem get_tasks_filters:
  "get_tasks lower status priority search tasks
     = (if q_truthy search
           \<and> (\<exists>t\<in>set (filter (\<lambda>t. passes_field ''status'' status t
                                    \<and> passes_field ''priority'' priority t) tasks).
                 \<not> search_reads lower search t)
        then Inl TypeError
        else Inr (Json 200 (JArr (map JObj
               (filter (\<lambda>t. passes_field ''status'' status t \<and> passes_field ''priority'' priority t
                           \<and> passes_search lower search t) tasks)))))"
proof -
  let ?F = "filter (\<lambda>t. passes_field ''status'' status t \<and> passes_field ''priority'' priority t) tasks"
  have F: "filter (passes_field ''priority'' priority) (filter (passes_field ''status'' status) tasks) = ?F"
    by simp
  have step: "filteredTasks lower status priority search tasks
      = (if q_truthy search then filter_e (matches_search lower search) ?F else Inr ?F)"
    unfolding filteredTasks_def Let_def field_step F by (rule refl)
  have all: "filter (passes_search lower search) ?F
      = filter (\<lambda>t. passes_field ''status'' status t \<and> passes_field ''priority'' priority t
                     \<and> passes_search lower search t) tasks"
    by (simp add: conj_ac)
  show ?thesis
  proof (cases "q_truthy search")
    case True
    have "filter_e (matches_search lower search) ?F
        = (if \<forall>t\<in>set ?F. search_reads lower search t
           then Inr (filter (passes_search lower search) ?F) else Inl TypeError)"
      by (rule filter_e_if) (rule matches_search_cases [OF True])
    with True step have "filteredTasks lower status priority search tasks
        = (if \<forall>t\<in>set ?F. search_reads lower search t
           then Inr (filter (passes_search lower search) ?F) else Inl TypeError)"
      by simp
    then show ?thesis
      unfolding get_tasks_def all using True by simp
  next
    case False
    then have "filter (passes_search lower search) ?F = ?F"
      by (simp add: passes_search_falsy)
    with False step all have "filteredTasks lower status priority search tasks
        = Inr (filter (\<lambda>t. passes_field ''status'' status t \<and> passes_field ''priority'' priority t
                     \<and> passes_search lower search t) tasks)"
      by simp
    with False show ?thesis
      unfolding get_tasks_def by simp
  qed
qed

lemma numeric_title_state_eq:
  "numeric_title_state =
     [(initial_tasks ''T0'' ''T0'' ''T0'' ''T0'' ! 0)
        (''title'' \<mapsto> JNum 5, ''updatedAt'' \<mapsto> JStr ''T9''),
      initial_tasks ''T0'' ''T0'' ''T0'' ''T0'' ! 1]"
  by (simp add: numeric_title_state_def put_task_def initial_tasks_def has_id_def Let_def)

theorem get_tasks_filters_witness:
  "get_tasks ascii_lower (Some (QStr ''in-progress'')) None (Some (QStr ''REACT''))
       (initial_tasks ''a'' ''b'' ''c'' ''d'')
     = Inr (Json 200 (JArr [JObj (initial_tasks ''a'' ''b'' ''c'' ''d'' ! 0)]))
   \<and> get_tasks ascii_lower None None (Some (QStr ''task'')) numeric_title_state = Inl TypeError"
proof -
  have c1: "ci_substring ascii_lower ''REACT'' ''Learn React Hooks''"
    unfolding ci_substring_def ascii_lower_def lower_char_def by code_simp
  have a: "get_tasks ascii_lower (Some (QStr ''in-progress'')) None (Some (QStr ''REACT''))
       (initial_tasks ''a'' ''b'' ''c'' ''d'')
     = Inr (Json 200 (JArr [JObj (initial_tasks ''a'' ''b'' ''c'' ''d'' ! 0)]))"
    using get_tasks_filters [of ascii_lower "Some (QStr ''in-progress'')" None "Some (QStr ''REACT'')"
        "initial_tasks ''a'' ''b'' ''c'' ''d''"]
    by (simp add: initial_tasks_def field_contains_def c1)
  have b: "get_tasks ascii_lower None None (Some (QStr ''task'')) numeric_title_state = Inl TypeError"
    using get_tasks_filters [of ascii_lower None None "Some (QStr ''task'')" numeric_title_state]
    by (simp add: numeric_title_state_eq)
  from a b show ?thesis
    by (rule conjI)
qed

text \<open>
  C4 as stated fails in three ways.  An empty status parameter is not applied, so the
  answer lists tasks whose status is not equal to it.  In the reachable state where a
  title is a number, a text search throws instead of answering.  A repeated search
  parameter arrives as an array, and the search throws.
\<close>

theorem get_tasks_filters_counterexample:
  "get_tasks ascii_lower (Some (QStr '''')) None None (initial_tasks ''T0'' ''T0'' ''T0'' ''T0'')
     = Inr (Json 200 (JArr (map JObj (initial_tasks ''T0'' ''T0'' ''T0'' ''T0''))))
   \<and> (initial_tasks ''T0'' ''T0'' ''T0'' ''T0'' ! 0) ''status'' = Some (JStr ''in-progress'')
   \<and> reachable numeric_title_state
   \<and> get_tasks ascii_lower None None (Some (QStr ''task'')) numeric_title_state = Inl TypeError
   \<and> get_tasks ascii_lower None None (Some QMulti) (initial_tasks ''T0'' ''T0'' ''T0'' ''T0'')
     = Inl TypeError"
proof -
  have a: "get_tasks ascii_lower (Some (QStr '''')) None None (initial_tasks ''T0'' ''T0'' ''T0'' ''T0'')
     = Inr (Json 200 (JArr (map JObj (initial_tasks ''T0'' ''T0'' ''T0'' ''T0''))))"
    by (simp add: get_tasks_def filteredTasks_def)
  have b: "(initial_tasks ''T0'' ''T0'' ''T0'' ''T0'' ! 0) ''status'' = Some (JStr ''in-progress'')"
    by (simp add: initial_tasks_def)
  have c: "reachable numeric_title_state"
    unfolding numeric_title_state_def by (rule reachable.request [OF reachable.boot])
  have d: "get_tasks ascii_lower None None (Some (QStr ''task'')) numeric_title_state = Inl TypeError"
    by (simp add: numeric_title_state_eq get_tasks_def filteredTasks_def matches_search_def)
  have e: "get_tasks ascii_lower None None (Some QMulti) (initial_tasks ''T0'' ''T0'' ''T0'' ''T0'')
     = Inl TypeError"
    by (simp add: initial_tasks_def get_tasks_def filteredTasks_def matches_search_def)
  show ?thesis
    by (intro conjI a b c d e)
qed

section \<open>Properties of the client state layer\<close>

lemma strict_eq_string: "strict_eq v (Some (JStr i)) \<longleftrightarrow> v = Some (JStr i)"
  by (cases "(v, Some (JStr i))" rule: strict_eq.cases) simp_all

text \<open>
  C2.  With a task under edit whose id is a string, \<^verbatim>\<open>handleUpdateTask\<close> first sets
  \<^verbatim>\<open>tasks\<close> to the list in which every task with that id is replaced by the shallow
  merge of the task with the submitted data, and only then issues the request; at
  that point the state shows the merged task.  If the request rejects, \<^verbatim>\<open>tasks\<close> is set
  back to exactly the list captured at the start and the error message is stored (a
  fixed message when the error has none).  If it resolves, nothing after the request
  sets \<^verbatim>\<open>tasks\<close>: the handler only closes the modal, clears the task under edit and
  resets the submitting flag.
\<close>

theorem handleUpdateTask_optimistic:
  assumes "st_editingTask c = Some editingTask"
    and "editingTask ''id'' = Some (JStr i)"
  shows "until_request (handleUpdateTask c taskData settled)
           = [SetIsSubmitting True,
              SetTasks (map (\<lambda>task. if has_id i task then task ++ taskData else task) (st_tasks c)),
              UpdateTaskRequest (Some (JStr i)) taskData]
       \<and> st_tasks (run_events (until_request (handleUpdateTask c taskData settled)) c)
           = map (\<lambda>task. if has_id i task then task ++ taskData else task) (st_tasks c)
       \<and> st_tasks (run_events (handleUpdateTask c taskData (Rejected message)) c) = st_tasks c
       \<and> st_error (run_events (handleUpdateTask c taskData (Rejected message)) c)
           = Some (if message \<noteq> [] then message else ''Failed to update task'')
       \<and> handleUpdateTask c taskData Resolved
           = until_request (handleUpdateTask c taskData Resolved)
             @ [SetShowEditModal False, SetEditingTask None, SetIsSubmitting False]
       \<and> st_tasks (run_events (handleUpdateTask c taskData Resolved) c)
           = map (\<lambda>task. if has_id i task then task ++ taskData else task) (st_tasks c)"
proof -
  let ?opt = "map (\<lambda>task. if has_id i task then task ++ taskData else task) (st_tasks c)"
  have opt: "map (\<lambda>task. if strict_eq (task ''id'') (Some (JStr i)) then task ++ taskData else task)
      (st_tasks c) = ?opt"
    by (simp add: strict_eq_string has_id_def)
  have ev: "handleUpdateTask c taskData s
      = [SetIsSubmitting True, SetTasks ?opt, UpdateTaskRequest (Some (JStr i)) taskData]
        @ (case s of
             Resolved \<Rightarrow> [SetShowEditModal False, SetEditingTask None]
           | Rejected m \<Rightarrow> [SetTasks (st_tasks c),
                             SetError (if m \<noteq> [] then m else ''Failed to update task'')])
        @ [SetIsSubmitting False]" for s
    unfolding handleUpdateTask_def assms option.case Let_def opt by (rule refl)
  have 1: "until_request (handleUpdateTask c taskData settled)
      = [SetIsSubmitting True, SetTasks ?opt, UpdateTaskRequest (Some (JStr i)) taskData]"
    unfolding ev by simp
  have 2: "st_tasks (run_events (until_request (handleUpdateTask c taskData settled)) c) = ?opt"
    unfolding 1 by (simp add: run_events_def)
  have 3: "st_tasks (run_events (handleUpdateTask c taskData (Rejected message)) c) = st_tasks c"
    unfolding ev by (simp add: run_events_def)
  have 4: "st_error (run_events (handleUpdateTask c taskData (Rejected message)) c)
      = Some (if message \<noteq> [] then message else ''Failed to update task'')"
    unfolding ev by (simp add: run_events_def)
  have 5: "handleUpdateTask c taskData Resolved
      = until_request (handleUpdateTask c taskData Resolved)
        @ [SetShowEditModal False, SetEditingTask None, SetIsSubmitting False]"
    unfolding ev by simp
  have 6: "st_tasks (run_events (handleUpdateTask c taskData Resolved) c) = ?opt"
    unfolding ev by (simp add: run_events_def)
  show ?thesis
    by (intro conjI 1 2 3 4 5 6)
qed

theorem handleUpdateTask_optimistic_witness:
  "st_editingTask
     \<lparr>st_tasks = [[''id'' \<mapsto> JStr ''1'', ''status'' \<mapsto> JStr ''todo'']],
      st_isSubmitting = False, st_showEditModal = True,
      st_editingTask = Some [''id'' \<mapsto> JStr ''1'', ''status'' \<mapsto> JStr ''todo''],
      st_error = None\<rparr>
     = Some [''id'' \<mapsto> JStr ''1'', ''status'' \<mapsto> JStr ''todo'']
   \<and> [''id'' \<mapsto> JStr ''1'', ''status'' \<mapsto> JStr ''todo''] ''id'' = Some (JStr ''1'')
   \<and> st_tasks (run_events (until_request (handleUpdateTask
        \<lparr>st_tasks = [[''id'' \<mapsto> JStr ''1'', ''status'' \<mapsto> JStr ''todo'']],
         st_isSubmitting = False, st_showEditModal = True,
         st_editingTask = Some [''id'' \<mapsto> JStr ''1'', ''status'' \<mapsto> JStr ''todo''],
         st_error = None\<rparr>
        [''status'' \<mapsto> JStr ''in-progress''] (Rejected ''boom'')))
        \<lparr>st_tasks = [[''id'' \<mapsto> JStr ''1'', ''status'' \<mapsto> JStr ''todo'']],
         st_isSubmitting = False, st_showEditModal = True,
         st_editingTask = Some [''id'' \<mapsto> JStr ''1'', ''status'' \<mapsto> JStr ''todo''],
         st_error = None\<rparr>)
     = [[''id'' \<mapsto> JStr ''1'', ''status'' \<mapsto> JStr ''in-progress'']]
   \<and> st_tasks (run_events (handleUpdateTask
        \<lparr>st_tasks = [[''id'' \<mapsto> JStr ''1'', ''status'' \<mapsto> JStr ''todo'']],
         st_isSubmitting = False, st_showEditModal = True,
         st_editingTask = Some [''id'' \<mapsto> JStr ''1'', ''status'' \<mapsto> JStr ''todo''],
         st_error = None\<rparr>
        [''status'' \<mapsto> JStr ''in-progress''] (Rejected ''boom''))
        \<lparr>st_tasks = [[''id'' \<mapsto> JStr ''1'', ''status'' \<mapsto> JStr ''todo'']],
         st_isSubmitting = False, st_showEditModal = True,
         st_editingTask = Some [''id'' \<mapsto> JStr ''1'', ''status'' \<mapsto> JStr ''todo''],
         st_error = None\<rparr>)
     = [[''id'' \<mapsto> JStr ''1'', ''status'' \<mapsto> JStr ''todo'']]"
proof -
  let ?t = "[''id'' \<mapsto> JStr ''1'', ''status'' \<mapsto> JStr ''todo'']"
  let ?c = "\<lparr>st_tasks = [?t], st_isSubmitting = False, st_showEditModal = True,
    st_editingTask = Some ?t, st_error = None\<rparr>"
  let ?d = "[''status'' \<mapsto> JStr ''in-progress'']"
  have h1: "st_editingTask ?c = Some ?t"
    by simp
  have h2: "?t ''id'' = Some (JStr ''1'')"
    by simp
  note th = handleUpdateTask_optimistic [where c = ?c and editingTask = ?t and i = "''1''"
      and taskData = ?d and settled = "Rejected ''boom''" and message = "''boom''", OF h1 h2]
  have m: "map (\<lambda>task. if has_id ''1'' task then task ++ ?d else task) (st_tasks ?c)
      = [[''id'' \<mapsto> JStr ''1'', ''status'' \<mapsto> JStr ''in-progress'']]"
    by (simp add: has_id_def)
  have a: "st_tasks (run_events (until_request (handleUpdateTask ?c ?d (Rejected ''boom''))) ?c)
      = [[''id'' \<mapsto> JStr ''1'', ''status'' \<mapsto> JStr ''in-progress'']]"
    using th [THEN conjunct2, THEN conjunct1] unfolding m .
  have b: "st_tasks (run_events (handleUpdateTask ?c ?d (Rejected ''boom'')) ?c) = [?t]"
    using th [THEN conjunct2, THEN conjunct2, THEN conjunct1] by simp
  show ?thesis
    by (intro conjI h1 h2 a b)
qed

lemma js_error_eq: "(e :: js_error) = TypeError"
  by (cases e) simp

lemma is_overdue_cases:
  "is_overdue rt now t = (if due_read_throws rt t then Inl TypeError else Inr (is_late rt now t))"
proof (cases "reads_due t")
  case False
  then show ?thesis
    by (simp add: is_overdue_def due_read_throws_def is_late_def reads_due_def)
next
  case True
  then have guard: "\<not> (\<not> truthy (t ''dueDate'') \<or> t ''status'' = Some (JStr ''completed''))"
    by (simp add: reads_due_def)
  show ?thesis
  proof (cases "date_value rt (t ''dueDate'')")
    case (Inl e)
    with True guard show ?thesis
      by (simp add: is_overdue_def due_read_throws_def js_error_eq [of e])
  next
    case (Inr d)
    with True guard show ?thesis
      by (cases d) (simp_all add: is_overdue_def due_read_throws_def is_late_def)
  qed
qed

lemma overdue_indices_cases:
  "overdue_indices rt clock tasks
     = (if \<forall>t\<in>set tasks. \<not> due_read_throws rt t
        then Inr (filter (\<lambda>i. is_late rt (clock i) (tasks ! i)) [0..<length tasks])
        else Inl TypeError)"
proof -
  have "overdue_indices rt clock tasks
     = (if \<forall>i\<in>set [0..<length tasks]. \<not> due_read_throws rt (tasks ! i)
        then Inr (filter (\<lambda>i. is_late rt (clock i) (tasks ! i)) [0..<length tasks])
        else Inl TypeError)"
    unfolding overdue_indices_def by (rule filter_e_if) (simp add: is_overdue_cases)
  moreover have "(\<forall>i\<in>set [0..<length tasks]. \<not> due_read_throws rt (tasks ! i))
      = (\<forall>t\<in>set tasks. \<not> due_read_throws rt t)"
    by (auto simp add: all_set_conv_all_nth)
  ultimately show ?thesis
    by (simp only:)
qed

lemma filter_length_mono:
  assumes "\<And>x. x \<in> set xs \<Longrightarrow> P x \<Longrightarrow> Q x"
  shows "length (filter P xs) \<le> length (filter Q xs)"
  using assms
proof (induction xs)
  case Nil
  show ?case by simp
next
  case (Cons x xs)
  have "length (filter P xs) \<le> length (filter Q xs)"
    by (rule Cons.IH) (rule Cons.prems, simp_all)
  with Cons.prems [of x] show ?case
    by (cases "P x") simp_all
qed

lemma filter_length_eq_iff:
  assumes "\<And>x. x \<in> set xs \<Longrightarrow> P x \<Longrightarrow> Q x"
  shows "(length (filter P xs) = length (filter Q xs)) = (\<forall>x\<in>set xs. Q x \<longrightarrow> P x)"
  using assms
proof (induction xs)
  case Nil
  show ?case by simp
next
  case (Cons x xs)
  have mono: "\<And>y. y \<in> set xs \<Longrightarrow> P y \<Longrightarrow> Q y"
    by (rule Cons.prems) simp_all
  have le: "length (filter P xs) \<le> length (filter Q xs)"
    by (rule filter_length_mono) (rule mono)
  have IH: "(length (filter P xs) = length (filter Q xs)) = (\<forall>x\<in>set xs. Q x \<longrightarrow> P x)"
    by (rule Cons.IH) (rule mono)
  show ?case
  proof (cases "P x")
    case True
    with Cons.prems [of x] IH show ?thesis
      by simp
  next
    case False
    with le IH show ?thesis
      by (cases "Q x") simp_all
  qed
qed

lemma is_late_mono: "now \<le> now' \<Longrightarrow> is_late rt now t \<Longrightarrow> is_late rt now' t"
  unfolding is_late_def
  by (cases "date_value rt (t ''dueDate'')") (simp_all split: option.splits)

lemma falls_due_iff:
  "now \<le> now' \<Longrightarrow> falls_due rt now now' t = (is_late rt now' t \<and> \<not> is_late rt now t)"
  unfolding is_late_def falls_due_def
  by (cases "date_value rt (t ''dueDate'')") (auto split: option.splits)

lemma late_counts_agree:
  assumes "\<forall>i<length tasks. c i \<le> c' i"
  shows "(length (filter (\<lambda>i. is_late rt (c i) (tasks ! i)) [0..<length tasks])
          = length (filter (\<lambda>i. is_late rt (c' i) (tasks ! i)) [0..<length tasks]))
     = (\<not> (\<exists>i<length tasks. falls_due rt (c i) (c' i) (tasks ! i)))"
proof -
  have "(length (filter (\<lambda>i. is_late rt (c i) (tasks ! i)) [0..<length tasks])
          = length (filter (\<lambda>i. is_late rt (c' i) (tasks ! i)) [0..<length tasks]))
     = (\<forall>i\<in>set [0..<length tasks]. is_late rt (c' i) (tasks ! i) \<longrightarrow> is_late rt (c i) (tasks ! i))"
  proof (rule filter_length_eq_iff)
    fix i
    assume "i \<in> set [0..<length tasks]" and late: "is_late rt (c i) (tasks ! i)"
    with assms have "c i \<le> c' i"
      by simp
    then show "is_late rt (c' i) (tasks ! i)"
      using late by (rule is_late_mono)
  qed
  also have "\<dots> = (\<not> (\<exists>i<length tasks. falls_due rt (c i) (c' i) (tasks ! i)))"
    using assms by (auto simp add: falls_due_iff)
  finally show ?thesis .
qed

lemma board_stats_cases:
  "board_stats rt clock (Some tasks)
     = (if \<forall>t\<in>set tasks. \<not> due_read_throws rt t
        then Inr \<lparr>total = length tasks,
                  completed = length (filter (\<lambda>t. t ''status'' = Some (JStr ''completed'')) tasks),
                  inProgress = length (filter (\<lambda>t. t ''status'' = Some (JStr ''in-progress'')) tasks),
                  overdue = length (filter (\<lambda>i. is_late rt (clock i) (tasks ! i)) [0..<length tasks])\<rparr>
        else Inl TypeError)"
  by (simp add: board_stats_def overdue_indices_cases)

lemma taskStats_cases:
  "taskStats rt clock tasks
     = (if \<forall>t\<in>set tasks. \<not> due_read_throws rt t
        then Inr \<lparr>total = length tasks,
                  completed = length (filter (\<lambda>t. t ''status'' = Some (JStr ''completed'')) tasks),
                  inProgress = length (filter (\<lambda>t. t ''status'' = Some (JStr ''in-progress'')) tasks),
                  overdue = length (filter (\<lambda>i. is_late rt (clock i) (tasks ! i)) [0..<length tasks]),
                  completionRate =
                    (if 0 < length tasks
                     then math_round (fl (fl (rat_of_nat
                            (length (filter (\<lambda>t. t ''status'' = Some (JStr ''completed'')) tasks))
                              / rat_of_nat (length tasks)) * 100))
                     else 0)\<rparr>
        else Inl TypeError)"
  by (simp add: taskStats_def overdue_indices_cases Let_def)

text \<open>
  C8, as the code has it.  What a render derives (the two statistics, the filtered and
  sorted view and its grouping by status) is determined by the task collection, the
  selections, the runtime and the clock readings of the two overdue filters.  Take two
  evaluations with the same collection and selections, the second with clock readings
  no earlier than the first.  The derived values are all the same exactly when no task
  falls due between its reading in the first and its reading in the second evaluation,
  in either statistic; a task falls due between two readings when its due date is
  truthy and a valid date from the first reading on and before the second, and its
  status is not \<^verbatim>\<open>completed\<close>.  (When reading a due date throws, both statistics throw in
  either evaluation.)
\<close>

theorem derived_views_clock_dependence:
  assumes "\<forall>i<length tasks. board_clock i \<le> board_clock' i \<and> context_clock i \<le> context_clock' i"
  shows "derive rt board_clock context_clock sel tasks = derive rt board_clock' context_clock' sel tasks
     \<longleftrightarrow> (\<exists>t\<in>set tasks. due_read_throws rt t)
         \<or> \<not> (\<exists>i<length tasks. falls_due rt (board_clock i) (board_clock' i) (tasks ! i)
                                \<or> falls_due rt (context_clock i) (context_clock' i) (tasks ! i))"
proof (cases "\<exists>t\<in>set tasks. due_read_throws rt t")
  case True
  then have "\<not> (\<forall>t\<in>set tasks. \<not> due_read_throws rt t)"
    by simp
  then have "board_stats rt board_clock (Some tasks) = board_stats rt board_clock' (Some tasks)"
    and "taskStats rt context_clock tasks = taskStats rt context_clock' tasks"
    by (simp_all only: board_stats_cases taskStats_cases if_False)
  with True show ?thesis
    by (simp add: derive_def)
next
  case False
  from assms have b: "\<forall>i<length tasks. board_clock i \<le> board_clock' i"
    and c: "\<forall>i<length tasks. context_clock i \<le> context_clock' i"
    by simp_all
  from False have all: "\<forall>t\<in>set tasks. \<not> due_read_throws rt t"
    by simp
  have "derive rt board_clock context_clock sel tasks = derive rt board_clock' context_clock' sel tasks
      \<longleftrightarrow> length (filter (\<lambda>i. is_late rt (board_clock i) (tasks ! i)) [0..<length tasks])
            = length (filter (\<lambda>i. is_late rt (board_clock' i) (tasks ! i)) [0..<length tasks])
          \<and> length (filter (\<lambda>i. is_late rt (context_clock i) (tasks ! i)) [0..<length tasks])
            = length (filter (\<lambda>i. is_late rt (context_clock' i) (tasks ! i)) [0..<length tasks])"
    unfolding derive_def board_stats_cases taskStats_cases if_P [OF all] by auto
  also have "\<dots> \<longleftrightarrow> \<not> (\<exists>i<length tasks. falls_due rt (board_clock i) (board_clock' i) (tasks ! i))
      \<and> \<not> (\<exists>i<length tasks. falls_due rt (context_clock i) (context_clock' i) (tasks ! i))"
    unfolding late_counts_agree [OF b] late_counts_agree [OF c] by (rule refl)
  also have "\<dots> \<longleftrightarrow> \<not> (\<exists>i<length tasks. falls_due rt (board_clock i) (board_clock' i) (tasks ! i)
                                \<or> falls_due rt (context_clock i) (context_clock' i) (tasks ! i))"
    by auto
  finally show ?thesis
    using False by simp
qed

theorem derived_views_clock_dependence_witness:
  "derive example_runtime (\<lambda>i. 1737331199999) (\<lambda>i. 1737331199999)
        \<lparr>searchTerm = '''', statusFilter = ''all'', priorityFilter = ''all'',
         sortBy = ''createdAt'', sortOrder = ''desc''\<rparr>
        [[''status'' \<mapsto> JStr ''todo'', ''dueDate'' \<mapsto> JStr ''2025-01-20'']]
     = derive example_runtime (\<lambda>i. 1737331200000) (\<lambda>i. 1737331200000)
        \<lparr>searchTerm = '''', statusFilter = ''all'', priorityFilter = ''all'',
         sortBy = ''createdAt'', sortOrder = ''desc''\<rparr>
        [[''status'' \<mapsto> JStr ''todo'', ''dueDate'' \<mapsto> JStr ''2025-01-20'']]
   \<and> derive example_runtime (\<lambda>i. 1737331200000) (\<lambda>i. 1737331200000)
        \<lparr>searchTerm = '''', statusFilter = ''all'', priorityFilter = ''all'',
         sortBy = ''createdAt'', sortOrder = ''desc''\<rparr>
        [[''status'' \<mapsto> JStr ''todo'', ''dueDate'' \<mapsto> JStr ''2025-01-20'']]
     \<noteq> derive example_runtime (\<lambda>i. 1737331200000) (\<lambda>i. 1737331200001)
        \<lparr>searchTerm = '''', statusFilter = ''all'', priorityFilter = ''all'',
         sortBy = ''createdAt'', sortOrder = ''desc''\<rparr>
        [[''status'' \<mapsto> JStr ''todo'', ''dueDate'' \<mapsto> JStr ''2025-01-20'']]"
proof -
  let ?sel = "\<lparr>searchTerm = '''', statusFilter = ''all'', priorityFilter = ''all'',
         sortBy = ''createdAt'', sortOrder = ''desc''\<rparr>"
  let ?t = "[''status'' \<mapsto> JStr ''todo'', ''dueDate'' \<mapsto> JStr ''2025-01-20'']"
  have h1: "\<forall>i<length [?t]. (\<lambda>i. 1737331199999 :: int) i \<le> (\<lambda>i. 1737331200000) i
      \<and> (\<lambda>i. 1737331199999 :: int) i \<le> (\<lambda>i. 1737331200000) i"
    by simp
  have h2: "\<forall>i<length [?t]. (\<lambda>i. 1737331200000 :: int) i \<le> (\<lambda>i. 1737331200000) i
      \<and> (\<lambda>i. 1737331200000 :: int) i \<le> (\<lambda>i. 1737331200001) i"
    by simp
  have a: "derive example_runtime (\<lambda>i. 1737331199999) (\<lambda>i. 1737331199999) ?sel [?t]
      = derive example_runtime (\<lambda>i. 1737331200000) (\<lambda>i. 1737331200000) ?sel [?t]"
    unfolding derived_views_clock_dependence [OF h1]
    by (simp add: falls_due_def reads_due_def example_runtime_def)
  have b: "derive example_runtime (\<lambda>i. 1737331200000) (\<lambda>i. 1737331200000) ?sel [?t]
      \<noteq> derive example_runtime (\<lambda>i. 1737331200000) (\<lambda>i. 1737331200001) ?sel [?t]"
    unfolding derived_views_clock_dependence [OF h2]
    by (simp add: falls_due_def due_read_throws_def reads_due_def example_runtime_def)
  from a b show ?thesis
    by (rule conjI)
qed

text \<open>
  C8 as stated fails: with the same one-task collection and the same selections, the
  overdue count of both statistics is 0 when evaluated at the instant of the task's due
  date and 1 when evaluated a millisecond later.
\<close>

theorem derived_views_counterexample:
  "board_stats example_runtime (\<lambda>i. 1737331200000)
       (Some [[''status'' \<mapsto> JStr ''todo'', ''dueDate'' \<mapsto> JStr ''2025-01-20'']])
     = Inr \<lparr>total = 1, completed = 0, inProgress = 0, overdue = 0\<rparr>
   \<and> board_stats example_runtime (\<lambda>i. 1737331200001)
       (Some [[''status'' \<mapsto> JStr ''todo'', ''dueDate'' \<mapsto> JStr ''2025-01-20'']])
     = Inr \<lparr>total = 1, completed = 0, inProgress = 0, overdue = 1\<rparr>
   \<and> taskStats example_runtime (\<lambda>i. 1737331200000)
       [[''status'' \<mapsto> JStr ''todo'', ''dueDate'' \<mapsto> JStr ''2025-01-20'']]
     = Inr \<lparr>total = 1, completed = 0, inProgress = 0, overdue = 0, completionRate = 0\<rparr>
   \<and> taskStats example_runtime (\<lambda>i. 1737331200001)
       [[''status'' \<mapsto> JStr ''todo'', ''dueDate'' \<mapsto> JStr ''2025-01-20'']]
     = Inr \<lparr>total = 1, completed = 0, inProgress = 0, overdue = 1, completionRate = 0\<rparr>"
proof -
  let ?t = "[''status'' \<mapsto> JStr ''todo'', ''dueDate'' \<mapsto> JStr ''2025-01-20'']"
  have r: "math_round (fl (fl 0 * 100)) = 0"
    by (simp add: fl_def math_round_def floor_eq_iff)
  have o1: "is_overdue example_runtime 1737331200000 ?t = Inr False"
    by (simp add: is_overdue_def example_runtime_def)
  have o2: "is_overdue example_runtime 1737331200001 ?t = Inr True"
    by (simp add: is_overdue_def example_runtime_def)
  have a: "board_stats example_runtime (\<lambda>i. 1737331200000) (Some [?t])
      = Inr \<lparr>total = 1, completed = 0, inProgress = 0, overdue = 0\<rparr>"
    by (simp add: board_stats_def overdue_indices_def o1)
  have b: "board_stats example_runtime (\<lambda>i. 1737331200001) (Some [?t])
      = Inr \<lparr>total = 1, completed = 0, inProgress = 0, overdue = 1\<rparr>"
    by (simp add: board_stats_def overdue_indices_def o2)
  have c: "taskStats example_runtime (\<lambda>i. 1737331200000) [?t]
      = Inr \<lparr>total = 1, completed = 0, inProgress = 0, overdue = 0, completionRate = 0\<rparr>"
    by (simp add: taskStats_def overdue_indices_def o1 r Let_def)
  have d: "taskStats example_runtime (\<lambda>i. 1737331200001) [?t]
      = Inr \<lparr>total = 1, completed = 0, inProgress = 0, overdue = 1, completionRate = 0\<rparr>"
    by (simp add: taskStats_def overdue_indices_def o2 r Let_def)
  show ?thesis
    by (intro conjI a b c d)
qed

lemma tags_some_cases:
  "tags_some (toLowerCase rt) (toLowerCase rt needle) tags
     = (if tags_read rt needle tags then Inr (list_ex (tag_has rt needle) tags) else Inl TypeError)"
proof (induction tags)
  case Nil
  show ?case by simp
next
  case (Cons x xs)
  then show ?case
    by (cases x) (simp_all add: ci_substring_def str_includes_def)
qed

lemma tags_value_cases:
  "(case v of Some (JArr tags) \<Rightarrow> tags_some (toLowerCase rt) (toLowerCase rt needle) tags
            | _ \<Rightarrow> Inl TypeError)
     = (if tags_readable rt needle v
        then Inr (case v of Some (JArr tags) \<Rightarrow> list_ex (tag_has rt needle) tags | _ \<Rightarrow> False)
        else Inl TypeError)"
proof (cases v)
  case None
  then show ?thesis by simp
next
  case (Some j)
  then show ?thesis
    by (cases j) (simp_all add: tags_some_cases)
qed

lemma matchesSearch_cases:
  "matchesSearch rt needle t
     = (if client_search_reads rt needle t
        then Inr (needle = [] \<or> field_contains (toLowerCase rt) ''title'' needle t
                  \<or> field_contains (toLowerCase rt) ''description'' needle t
                  \<or> tag_contains rt needle t)
        else Inl TypeError)"
proof (cases "needle = []")
  case True
  then show ?thesis
    by (simp add: matchesSearch_def client_search_reads_def)
next
  case False
  show ?thesis
  proof (cases "t ''title''" rule: is_str.cases)
    case (1 a)
    note title = this
    show ?thesis
    proof (cases "t ''description''" rule: is_str.cases)
      case (1 d)
      with title False show ?thesis
        by (simp add: matchesSearch_def client_search_reads_def field_contains_def
            ci_substring_def str_includes_def tags_value_cases)
    qed (simp_all add: matchesSearch_def client_search_reads_def field_contains_def
          ci_substring_def str_includes_def title False)
  qed (simp_all add: matchesSearch_def client_search_reads_def False)
qed

lemma task_passes_cases:
  "task_passes rt sel t
     = (if client_search_reads rt (searchTerm sel) t then Inr (client_passes rt sel t)
        else Inl TypeError)"
  by (simp add: task_passes_def matchesSearch_cases client_passes_def Let_def)

lemma filtered_tasks_cases:
  "filtered_tasks rt sel tasks
     = (if \<forall>t\<in>set tasks. client_search_reads rt (searchTerm sel) t
        then Inr (filter (client_passes rt sel) tasks) else Inl TypeError)"
  unfolding filtered_tasks_def by (rule filter_e_if) (rule task_passes_cases)

lemma compare_tasks_reads:
  "sort_reads rt sel a \<Longrightarrow> sort_reads rt sel b \<Longrightarrow> \<not> isl (compare_tasks rt sel a b)"
  unfolding sort_reads_def compare_tasks_def
  by (cases "sort_value rt (sortBy sel) a"; cases "sort_value rt (sortBy sel) b") simp_all

lemma sorted_view:
  assumes "sort_contract rt"
    and "\<forall>t\<in>set xs. sort_reads rt sel t"
  shows "\<exists>view. array_sort rt (compare_tasks rt sel) xs = Inr view \<and> set view = set xs"
proof (cases "array_sort rt (compare_tasks rt sel) xs")
  case (Inl e)
  from assms(1) have "case array_sort rt (compare_tasks rt sel) xs of
      Inl e \<Rightarrow> \<exists>a\<in>set xs. \<exists>b\<in>set xs. isl (compare_tasks rt sel a b)
    | Inr ys \<Rightarrow> set ys = set xs"
    unfolding sort_contract_def by (elim allE)
  with Inl obtain a b where "a \<in> set xs" "b \<in> set xs" "isl (compare_tasks rt sel a b)"
    by auto
  with assms(2) compare_tasks_reads [of rt sel a b] show ?thesis
    by simp
next
  case (Inr ys)
  from assms(1) have "case array_sort rt (compare_tasks rt sel) xs of
      Inl e \<Rightarrow> \<exists>a\<in>set xs. \<exists>b\<in>set xs. isl (compare_tasks rt sel a b)
    | Inr ys \<Rightarrow> set ys = set xs"
    unfolding sort_contract_def by (elim allE)
  with Inr show ?thesis
    by simp
qed

lemma example_insert_cases:
  "case example_insert cmp x ys of
     Inl e \<Rightarrow> \<exists>b\<in>set ys. isl (cmp x b)
   | Inr r \<Rightarrow> set r = insert x (set ys)"
proof (induction ys)
  case Nil
  show ?case by simp
next
  case (Cons y ys)
  show ?case
  proof (cases "cmp x y")
    case (Inl e)
    then show ?thesis by simp
  next
    case (Inr c)
    show ?thesis
    proof (cases "0 < c")
      case True
      with Inr Cons.IH show ?thesis
        by (cases "example_insert cmp x ys") (simp_all add: insert_commute)
    next
      case False
      with Inr show ?thesis by simp
    qed
  qed
qed

lemma example_sort_cases:
  "case example_sort cmp xs of
     Inl e \<Rightarrow> \<exists>a\<in>set xs. \<exists>b\<in>set xs. isl (cmp a b)
   | Inr r \<Rightarrow> set r = set xs"
proof (induction xs)
  case Nil
  show ?case by simp
next
  case (Cons x xs)
  show ?case
  proof (cases "example_sort cmp xs")
    case (Inl e)
    with Cons.IH show ?thesis
      by auto
  next
    case (Inr r)
    with Cons.IH have r: "set r = set xs"
      by simp
    from example_insert_cases [where cmp = cmp and x = x and ys = r] Inr r show ?thesis
      by (cases "example_insert cmp x r") auto
  qed
qed

lemma example_sort_contract: "sort_contract example_runtime"
  unfolding sort_contract_def
  by (simp add: example_runtime_def example_sort_cases)

text \<open>
  C10, as the code has it.  Take a task of the collection that passes the status and
  priority selections and has a tag of which the search term is a case-insensitive
  substring, whatever its title and description contain.  The client's filter gives a
  list only when the text search can read every task of the collection, and throws
  otherwise; the list is then exactly the tasks that pass the selections, in order,
  and the task is among them.  The filtered and sorted view throws when the filter
  does; when the filter gives a list, the comparator can read every filtered task and
  the runtime's sort keeps its contract, the view exists, holds exactly the filtered
  tasks and so contains the task.  When the term is in neither the title nor the
  description, the server's text search does not match the same task: it answers
  false when title and description are strings, and throws otherwise.
\<close>

theorem client_search_matches_tags:
  assumes "task \<in> set tasks"
    and "tag_contains rt (searchTerm sel) task"
    and "statusFilter sel = ''all'' \<or> task ''status'' = Some (JStr (statusFilter sel))"
    and "priorityFilter sel = ''all'' \<or> task ''priority'' = Some (JStr (priorityFilter sel))"
  shows "filtered_tasks rt sel tasks
       = (if \<forall>t\<in>set tasks. client_search_reads rt (searchTerm sel) t
          then Inr (filter (client_passes rt sel) tasks) else Inl TypeError)
     \<and> task \<in> set (filter (client_passes rt sel) tasks)
     \<and> (\<not> (\<forall>t\<in>set tasks. client_search_reads rt (searchTerm sel) t)
          \<longrightarrow> filteredAndSortedTasks rt sel (Some tasks) = Inl TypeError)
     \<and> ((\<forall>t\<in>set tasks. client_search_reads rt (searchTerm sel) t)
          \<and> (\<forall>t\<in>set (filter (client_passes rt sel) tasks). sort_reads rt sel t)
          \<and> sort_contract rt
          \<longrightarrow> (\<exists>view. filteredAndSortedTasks rt sel (Some tasks) = Inr view
                 \<and> set view = set (filter (client_passes rt sel) tasks)
                 \<and> task \<in> set view))
     \<and> (\<not> field_contains (toLowerCase rt) ''title'' (searchTerm sel) task
          \<and> \<not> field_contains (toLowerCase rt) ''description'' (searchTerm sel) task
          \<longrightarrow> matches_search (toLowerCase rt) (Some (QStr (searchTerm sel))) task
              = (if is_str (task ''title'') \<and> is_str (task ''description'')
                 then Inr False else Inl TypeError))"
proof -
  let ?F = "filter (client_passes rt sel) tasks"
  let ?reads = "\<forall>t\<in>set tasks. client_search_reads rt (searchTerm sel) t"
  have A: "filtered_tasks rt sel tasks = (if ?reads then Inr ?F else Inl TypeError)"
    by (rule filtered_tasks_cases)
  have "client_passes rt sel task"
    unfolding client_passes_def
    by (intro conjI) (rule disjI2, rule disjI2, rule disjI2, rule assms(2), rule assms(3), rule assms(4))
  with assms(1) have B: "task \<in> set ?F"
    by simp
  have C: "\<not> ?reads \<longrightarrow> filteredAndSortedTasks rt sel (Some tasks) = Inl TypeError"
    by (simp add: filteredAndSortedTasks_def A)
  have D: "?reads \<and> (\<forall>t\<in>set ?F. sort_reads rt sel t) \<and> sort_contract rt
      \<longrightarrow> (\<exists>view. filteredAndSortedTasks rt sel (Some tasks) = Inr view
             \<and> set view = set ?F \<and> task \<in> set view)"
  proof
    assume h: "?reads \<and> (\<forall>t\<in>set ?F. sort_reads rt sel t) \<and> sort_contract rt"
    then have reads: ?reads and sr: "\<forall>t\<in>set ?F. sort_reads rt sel t" and sc: "sort_contract rt"
      by (rule conjunct1, rule conjunct2 [THEN conjunct1], rule conjunct2 [THEN conjunct2])
    from sorted_view [OF sc sr] obtain view
      where v: "array_sort rt (compare_tasks rt sel) ?F = Inr view" "set view = set ?F"
      by (elim exE conjE) (rule that)
    from reads have "filteredAndSortedTasks rt sel (Some tasks) = array_sort rt (compare_tasks rt sel) ?F"
      by (simp add: filteredAndSortedTasks_def A)
    with v B show "\<exists>view. filteredAndSortedTasks rt sel (Some tasks) = Inr view
             \<and> set view = set ?F \<and> task \<in> set view"
      by simp
  qed
  have E: "\<not> field_contains (toLowerCase rt) ''title'' (searchTerm sel) task
          \<and> \<not> field_contains (toLowerCase rt) ''description'' (searchTerm sel) task
          \<longrightarrow> matches_search (toLowerCase rt) (Some (QStr (searchTerm sel))) task
              = (if is_str (task ''title'') \<and> is_str (task ''description'')
                 then Inr False else Inl TypeError)"
    by (simp add: matches_search_string)
  show ?thesis
    by (intro conjI A B C D E)
qed

lemma untagged_state_eq:
  "untagged_state =
     initial_tasks ''T0'' ''T0'' ''T0'' ''T0''
     @ [Map.empty
          (''id'' \<mapsto> JStr ''3'', ''title'' \<mapsto> JStr ''Pay bills'', ''description'' \<mapsto> JStr '''',
           ''status'' \<mapsto> JStr ''todo'', ''priority'' \<mapsto> JStr ''medium'', ''dueDate'' := None,
           ''createdAt'' \<mapsto> JStr ''T1'', ''updatedAt'' \<mapsto> JStr ''T1'', ''subtasks'' \<mapsto> JArr [],
           ''tags'' \<mapsto> JNull, ''assignee'' \<mapsto> JStr '''')]"
  by (simp add: untagged_state_def post_task_def with_default_def js_or_def Let_def)

theorem client_search_matches_tags_witness:
  "initial_tasks ''T0'' ''T0'' ''T0'' ''T0'' ! 0 \<in> set (initial_tasks ''T0'' ''T0'' ''T0'' ''T0'')
   \<and> tag_contains example_runtime ''Learning'' (initial_tasks ''T0'' ''T0'' ''T0'' ''T0'' ! 0)
   \<and> \<not> field_contains ascii_lower ''title'' ''Learning'' (initial_tasks ''T0'' ''T0'' ''T0'' ''T0'' ! 0)
   \<and> \<not> field_contains ascii_lower ''description'' ''Learning''
         (initial_tasks ''T0'' ''T0'' ''T0'' ''T0'' ! 0)
   \<and> filtered_tasks example_runtime
        \<lparr>searchTerm = ''Learning'', statusFilter = ''all'', priorityFilter = ''high'',
         sortBy = ''createdAt'', sortOrder = ''desc''\<rparr>
        (initial_tasks ''T0'' ''T0'' ''T0'' ''T0'')
     = Inr [initial_tasks ''T0'' ''T0'' ''T0'' ''T0'' ! 0]
   \<and> (\<exists>view. filteredAndSortedTasks example_runtime
        \<lparr>searchTerm = ''Learning'', statusFilter = ''all'', priorityFilter = ''high'',
         sortBy = ''createdAt'', sortOrder = ''desc''\<rparr>
        (Some (initial_tasks ''T0'' ''T0'' ''T0'' ''T0'')) = Inr view
        \<and> initial_tasks ''T0'' ''T0'' ''T0'' ''T0'' ! 0 \<in> set view)
   \<and> matches_search ascii_lower (Some (QStr ''Learning''))
        (initial_tasks ''T0'' ''T0'' ''T0'' ''T0'' ! 0) = Inr False"
proof -
  let ?sel = "\<lparr>searchTerm = ''Learning'', statusFilter = ''all'', priorityFilter = ''high'',
         sortBy = ''createdAt'', sortOrder = ''desc''\<rparr>"
  let ?tasks = "initial_tasks ''T0'' ''T0'' ''T0'' ''T0''"
  let ?t = "?tasks ! 0"
  have c1: "\<not> ci_substring ascii_lower ''Learning'' ''Learn React Hooks''"
    and c2: "\<not> ci_substring ascii_lower ''Learning'' ''Study useEffect, useState, and custom hooks''"
    and c3: "\<not> ci_substring ascii_lower ''Learning'' ''react''"
    and c4: "ci_substring ascii_lower ''Learning'' ''learning''"
    and c5: "\<not> ci_substring ascii_lower ''Learning'' ''Build Task Manager''"
    and c6: "\<not> ci_substring ascii_lower ''Learning''
               ''Create a comprehensive task management application''"
    and c7: "\<not> ci_substring ascii_lower ''Learning'' ''project''"
    and c8: "\<not> ci_substring ascii_lower ''Learning'' ''development''"
    unfolding ci_substring_def ascii_lower_def lower_char_def by code_simp+
  note ci = c1 c2 c3 c4 c5 c6 c7 c8
  have low: "toLowerCase example_runtime = ascii_lower"
    by (simp add: example_runtime_def)
  have h1: "?t \<in> set ?tasks"
    by (simp add: initial_tasks_def)
  have h2: "tag_contains example_runtime ''Learning'' ?t"
    by (simp add: initial_tasks_def low ci)
  have h3: "statusFilter ?sel = ''all'' \<or> ?t ''status'' = Some (JStr (statusFilter ?sel))"
    by simp
  have h4: "priorityFilter ?sel = ''all'' \<or> ?t ''priority'' = Some (JStr (priorityFilter ?sel))"
    by (simp add: initial_tasks_def)
  have n1: "\<not> field_contains ascii_lower ''title'' ''Learning'' ?t"
    by (simp add: initial_tasks_def field_contains_def ci)
  have n2: "\<not> field_contains ascii_lower ''description'' ''Learning'' ?t"
    by (simp add: initial_tasks_def field_contains_def ci)
  have reads: "\<forall>t\<in>set ?tasks. client_search_reads example_runtime (searchTerm ?sel) t"
    by (simp add: initial_tasks_def client_search_reads_def field_contains_def low ci)
  have F: "filter (client_passes example_runtime ?sel) ?tasks = [?t]"
    by (simp add: initial_tasks_def client_passes_def field_contains_def low ci)
  have sr: "\<forall>t\<in>set (filter (client_passes example_runtime ?sel) ?tasks). sort_reads example_runtime ?sel t"
    unfolding F by (simp add: sort_reads_def sort_value_def example_runtime_def)
  have h2': "tag_contains example_runtime (searchTerm ?sel) ?t"
    using h2 by simp
  note th = client_search_matches_tags [where task = ?t and tasks = ?tasks and rt = example_runtime
      and sel = ?sel, OF h1 h2' h3 h4]
  have a: "filtered_tasks example_runtime ?sel ?tasks = Inr [?t]"
    using th [THEN conjunct1] reads F by simp
  from th [THEN conjunct2, THEN conjunct2, THEN conjunct2, THEN conjunct1] reads sr example_sort_contract
  have "\<exists>view. filteredAndSortedTasks example_runtime ?sel (Some ?tasks) = Inr view
      \<and> set view = set (filter (client_passes example_runtime ?sel) ?tasks) \<and> ?t \<in> set view"
    by (rule mp [OF _ conjI [OF _ conjI]])
  then have b: "\<exists>view. filteredAndSortedTasks example_runtime ?sel (Some ?tasks) = Inr view
      \<and> ?t \<in> set view"
    by (elim exE conjE) (rule exI, rule conjI)
  have s1: "is_str (?t ''title'')" and s2: "is_str (?t ''description'')"
    by (simp_all add: initial_tasks_def)
  from th [THEN conjunct2, THEN conjunct2, THEN conjunct2, THEN conjunct2] n1 n2 s1 s2
  have c: "matches_search ascii_lower (Some (QStr ''Learning'')) ?t = Inr False"
    by (simp add: low)
  show ?thesis
    by (intro conjI h1 h2 n1 n2 a b c)
qed

text \<open>
  C10 as stated fails.  After \<^verbatim>\<open>POST /api/tasks\<close> with body
  \<^verbatim>\<open>{"title": "Pay bills", "tags": null}\<close> the collection holds a task whose tags are
  \<^verbatim>\<open>null\<close>.  The first task has the tag \<^verbatim>\<open>learning\<close>, and the term \<^verbatim>\<open>learning\<close> is in
  neither its title nor its description; the client's search reaches the new task's
  tags and throws, so there is no filtered and sorted view to contain the first task.
\<close>

theorem client_search_counterexample:
  "reachable untagged_state
   \<and> initial_tasks ''T0'' ''T0'' ''T0'' ''T0'' ! 0 \<in> set untagged_state
   \<and> tag_contains example_runtime ''learning'' (initial_tasks ''T0'' ''T0'' ''T0'' ''T0'' ! 0)
   \<and> filteredAndSortedTasks example_runtime
        \<lparr>searchTerm = ''learning'', statusFilter = ''all'', priorityFilter = ''all'',
         sortBy = ''createdAt'', sortOrder = ''desc''\<rparr>
        (Some untagged_state)
     = Inl TypeError"
proof -
  let ?sel = "\<lparr>searchTerm = ''learning'', statusFilter = ''all'', priorityFilter = ''all'',
         sortBy = ''createdAt'', sortOrder = ''desc''\<rparr>"
  have c4: "ci_substring ascii_lower ''learning'' ''learning''"
    and c3: "\<not> ci_substring ascii_lower ''learning'' ''react''"
    and c9: "\<not> ci_substring ascii_lower ''learning'' ''Pay bills''"
    and c10: "\<not> ci_substring ascii_lower ''learning'' ''''"
    unfolding ci_substring_def ascii_lower_def lower_char_def by code_simp+
  have low: "toLowerCase example_runtime = ascii_lower"
    by (simp add: example_runtime_def)
  have r: "reachable untagged_state"
    unfolding untagged_state_def by (rule reachable.request [OF reachable.boot])
  have m: "initial_tasks ''T0'' ''T0'' ''T0'' ''T0'' ! 0 \<in> set untagged_state"
    by (simp add: untagged_state_eq initial_tasks_def)
  have t: "tag_contains example_runtime ''learning'' (initial_tasks ''T0'' ''T0'' ''T0'' ''T0'' ! 0)"
    by (simp add: initial_tasks_def low c3 c4)
  have "\<not> client_search_reads example_runtime ''learning'' (untagged_state ! 2)"
    by (simp add: untagged_state_eq initial_tasks_def client_search_reads_def field_contains_def
        low c9 c10)
  moreover have "untagged_state ! 2 \<in> set untagged_state"
    by (simp add: untagged_state_eq initial_tasks_def)
  ultimately have "\<not> (\<forall>t\<in>set untagged_state. client_search_reads example_runtime (searchTerm ?sel) t)"
    by (simp del: set_simps) (rule bexI)
  then have "filtered_tasks example_runtime ?sel untagged_state = Inl TypeError"
    by (simp only: filtered_tasks_cases if_False)
  then have f: "filteredAndSortedTasks example_runtime ?sel (Some untagged_state) = Inl TypeError"
    by (simp add: filteredAndSortedTasks_def)
  show ?thesis
    by (intro conjI r m t f)
qed

end
